theory Spec2Isabelle
  imports Main "HOL-Library.Word" "HOL-Library.Signed_Division"
begin

unbundle bit_operations_syntax

section \<open>Data model of pkg/sql/db.go\<close>

text \<open>
  Go values that the node only passes along are kept opaque: a \<open>proto.Result\<close> and a
  \<open>proto.Field\<close> are strings, a bound argument (\<open>interface{}\<close>) is an optional string
  with \<open>None\<close> for the nil interface.  An \<open>error\<close> is a message, possibly wrapped by
  \<open>errors.WithStack\<close>; the Go value \<open>nil\<close> of type \<open>error\<close> is \<open>None\<close>.
\<close>

datatype error = Err string | WithStack error

type_synonym Result = string
type_synonym Field = string
type_synonym arg = "string option"

text \<open>Go's \<open>int\<close> and \<open>int64\<close> (64-bit two's complement), \<open>uint16\<close>, and
  \<open>proto.DBStatus\<close>, an unsigned byte whose declaration lies outside the given sources.\<close>

type_synonym int64 = "64 word"
type_synonym uint16 = "16 word"
type_synonym DBStatus = "8 word"

text \<open>Run-time panics of the Go code that the modelled functions can raise.\<close>

datatype panic = IntegerDivideByZero | IndexOutOfRange nat nat

text \<open>
  Modelled from the spec: \<open>driver.BackendConnection\<close> is not among the given sources.  The
  spec treats it as an opaque capability (ping, schema selection, field-list lookup,
  execute, prepared execute); here it is a test double whose fields are the answers it
  gives to each request.
\<close>

record BackendConnection =
  connID :: nat
  Ping_answer :: "error option"
  WriteComInitDB_answer :: "string \<Rightarrow> error option"
  WriteComFieldList_answer :: "string \<Rightarrow> string \<Rightarrow> error option"
  ReadColumnDefinitions_answer :: "Field list \<times> error option"
  ExecuteWithWarningCount_answer :: "string \<Rightarrow> bool \<Rightarrow> Result option \<times> uint16 \<times> error option"
  PrepareQueryArgs_answer :: "string \<Rightarrow> arg list \<Rightarrow> Result option \<times> uint16 \<times> error option"
  Execute_answer :: "string \<Rightarrow> bool \<Rightarrow> Result option \<times> error option"

text \<open>
  Modelled from the spec: \<open>pools.ResourcePool\<close> is not among the given sources.  Only its
  acquire/release/close surface is modelled: the count of available connections, which a
  successful acquire lowers by one and a release raises by one, the closed flag, and the
  number of close requests it has received.
\<close>

record ResourcePool =
  available :: int
  poolClosed :: bool
  closeCalls :: nat

text \<open>
  Every request the node sends to a collaborator (pool, connection, filter) is recorded,
  together with the value of \<open>inflightRequests\<close> at that moment.  The record plays the
  part of the recording test doubles; the source has no such field.
\<close>

datatype call =
    PoolGet | PoolPut nat | PoolClose
  | ConnPing nat
  | ConnWriteComInitDB nat string
  | ConnWriteComFieldList nat string string
  | ConnReadColumnDefinitions nat
  | ConnExecuteWithWarningCount nat string bool
  | ConnPrepareQueryArgs nat string "arg list"
  | ConnExecute nat string bool
  | PreHandle nat nat
  | PostHandle nat nat

type_synonym DBConnectionPreFilter = "BackendConnection \<Rightarrow> error option"
type_synonym DBConnectionPostFilter = "Result option \<Rightarrow> BackendConnection \<Rightarrow> error option"

record DB =
  name :: string
  status :: DBStatus
  pingInterval :: int64
  pingTimesForChangeStatus :: int64
  pool :: ResourcePool
  isMaster :: bool
  masterName :: string
  writeWeight :: int64
  readWeight :: int64
  connectionPreFilters :: "DBConnectionPreFilter list"
  connectionPostFilters :: "DBConnectionPostFilter list"
  inflightRequests :: int64
  pingCount :: int64
  calls :: "(call \<times> int64) list"

record Tx =
  closed :: bool
  conn :: BackendConnection

record Stmt =
  StmtNode_Text :: string
  BindVars :: "string \<rightharpoonup> arg"

section \<open>Collaborators\<close>

definition record_call :: "call \<Rightarrow> DB \<Rightarrow> DB" where
  "record_call c db = db\<lparr>calls := calls db @ [(c, inflightRequests db)]\<rparr>"

text \<open>
  Modelled from the spec: the methods \<open>Get\<close>, \<open>Put\<close> and \<open>Close\<close> of
  \<open>pools.ResourcePool\<close>, which is not among the given sources.  The first argument of
  \<open>pool_Get\<close> is what the pool answers to this request: an error (pool closed, context
  cancelled or timed out), which leaves the pool as it was, or a connection, which is no
  longer available until it is put back.  The pool holds connections of the type
  \<open>*driver.BackendConnection\<close> only, so the type assertion that follows each \<open>Get\<close> in
  the source succeeds.
\<close>

definition pool_Get :: "error + BackendConnection \<Rightarrow> DB \<Rightarrow> (error + BackendConnection) \<times> DB" where
  "pool_Get g db =
     (let db1 = record_call PoolGet db in
      case g of
        Inl e \<Rightarrow> (Inl e, db1)
      | Inr c \<Rightarrow> (Inr c, db1\<lparr>pool := (pool db1)\<lparr>available := available (pool db1) - 1\<rparr>\<rparr>))"

definition pool_Put :: "BackendConnection \<Rightarrow> DB \<Rightarrow> DB" where
  "pool_Put c db =
     (let db1 = record_call (PoolPut (connID c)) db in
      db1\<lparr>pool := (pool db1)\<lparr>available := available (pool db1) + 1\<rparr>\<rparr>)"

definition pool_Close :: "DB \<Rightarrow> DB" where
  "pool_Close db =
     (let db1 = record_call PoolClose db in
      db1\<lparr>pool := (pool db1)\<lparr>poolClosed := True, closeCalls := Suc (closeCalls (pool db1))\<rparr>\<rparr>)"

text \<open>
  Modelled from the spec: the methods of \<open>driver.BackendConnection\<close>, which is not
  among the given sources.  Each returns the answer the connection holds for the request.
\<close>

definition conn_Ping :: "BackendConnection \<Rightarrow> DB \<Rightarrow> error option \<times> DB" where
  "conn_Ping c db = (Ping_answer c, record_call (ConnPing (connID c)) db)"

definition conn_WriteComInitDB :: "BackendConnection \<Rightarrow> string \<Rightarrow> DB \<Rightarrow> error option \<times> DB" where
  "conn_WriteComInitDB c schema db =
     (WriteComInitDB_answer c schema, record_call (ConnWriteComInitDB (connID c) schema) db)"

definition conn_WriteComFieldList ::
  "BackendConnection \<Rightarrow> string \<Rightarrow> string \<Rightarrow> DB \<Rightarrow> error option \<times> DB" where
  "conn_WriteComFieldList c table wildcard db =
     (WriteComFieldList_answer c table wildcard,
      record_call (ConnWriteComFieldList (connID c) table wildcard) db)"

definition conn_ReadColumnDefinitions ::
  "BackendConnection \<Rightarrow> DB \<Rightarrow> (Field list \<times> error option) \<times> DB" where
  "conn_ReadColumnDefinitions c db =
     (ReadColumnDefinitions_answer c, record_call (ConnReadColumnDefinitions (connID c)) db)"

definition conn_ExecuteWithWarningCount ::
  "BackendConnection \<Rightarrow> string \<Rightarrow> bool \<Rightarrow> DB \<Rightarrow> (Result option \<times> uint16 \<times> error option) \<times> DB" where
  "conn_ExecuteWithWarningCount c query wantfields db =
     (ExecuteWithWarningCount_answer c query wantfields,
      record_call (ConnExecuteWithWarningCount (connID c) query wantfields) db)"

definition conn_PrepareQueryArgs ::
  "BackendConnection \<Rightarrow> string \<Rightarrow> arg list \<Rightarrow> DB \<Rightarrow> (Result option \<times> uint16 \<times> error option) \<times> DB" where
  "conn_PrepareQueryArgs c query args db =
     (PrepareQueryArgs_answer c query args,
      record_call (ConnPrepareQueryArgs (connID c) query args) db)"

definition conn_Execute ::
  "BackendConnection \<Rightarrow> string \<Rightarrow> bool \<Rightarrow> DB \<Rightarrow> (Result option \<times> error option) \<times> DB" where
  "conn_Execute c query wantfields db =
     (Execute_answer c query wantfields,
      record_call (ConnExecute (connID c) query wantfields) db)"

section \<open>Construction and role metadata\<close>

text \<open>\<open>NewDB\<close>.  The constant \<open>proto.Running\<close> is declared outside the given sources and
  is the first parameter.  The goroutine \<open>db.ping()\<close> started here is the function
  \<open>ping\<close> below, run on the outcomes of successive timer ticks.\<close>

definition NewDB :: "DBStatus \<Rightarrow> string \<Rightarrow> string \<Rightarrow> int64 \<Rightarrow> int64 \<Rightarrow> ResourcePool \<Rightarrow> DB" where
  "NewDB Running nm mName interval pingTimes p =
     \<lparr> name = nm, status = Running, pingInterval = interval,
       pingTimesForChangeStatus = pingTimes, pool = p,
       isMaster = (mName = ''''), masterName = mName,
       writeWeight = 0, readWeight = 0,
       connectionPreFilters = [], connectionPostFilters = [],
       inflightRequests = 0, pingCount = 0, calls = [] \<rparr>"

definition SetWriteWeight :: "int64 \<Rightarrow> DB \<Rightarrow> DB" where
  "SetWriteWeight weight db = (if isMaster db then db\<lparr>writeWeight := weight\<rparr> else db)"

definition SetReadWeight :: "int64 \<Rightarrow> DB \<Rightarrow> DB" where
  "SetReadWeight weight db = db\<lparr>readWeight := weight\<rparr>"

definition SetConnectionPreFilters :: "DBConnectionPreFilter list \<Rightarrow> DB \<Rightarrow> DB" where
  "SetConnectionPreFilters filters db = db\<lparr>connectionPreFilters := filters\<rparr>"

definition SetConnectionPostFilters :: "DBConnectionPostFilter list \<Rightarrow> DB \<Rightarrow> DB" where
  "SetConnectionPostFilters filters db = db\<lparr>connectionPostFilters := filters\<rparr>"

section \<open>Health monitor\<close>

text \<open>Go's \<open>%\<close> on \<open>int64\<close>: the remainder of the division truncated towards zero
  (the sign follows the dividend); the divisor is not zero where this is used.\<close>

definition go_rem64 :: "int64 \<Rightarrow> int64 \<Rightarrow> int64" where
  "go_rem64 a b = word_of_int (sint a smod sint b)"

text \<open>The deferred closure of \<open>_ping\<close>: it reads the named result \<open>err\<close>, moves
  \<open>pingCount\<close>, and resets it and possibly flips \<open>status\<close>.  The remainder by a zero
  \<open>pingTimesForChangeStatus\<close> is Go's integer-divide-by-zero panic.\<close>

definition ping_deferred :: "DBStatus \<Rightarrow> error option \<Rightarrow> DB \<Rightarrow> (panic + error option) \<times> DB" where
  "ping_deferred Running err db =
     (let db1 =
            (if status db = Running
             then (if err \<noteq> None then db\<lparr>pingCount := pingCount db + 1\<rparr>
                   else db\<lparr>pingCount := pingCount db - 1\<rparr>)
             else (if err = None then db\<lparr>pingCount := pingCount db + 1\<rparr>
                   else db\<lparr>pingCount := pingCount db - 1\<rparr>));
          currentCount = pingCount db1
      in if pingTimesForChangeStatus db1 = 0 then (Inl IntegerDivideByZero, db1)
         else if go_rem64 currentCount (pingTimesForChangeStatus db1) = 0
         then (let db2 = db1\<lparr>pingCount := 0\<rparr>
               in if 0 < sint currentCount
                  then (Inr err, db2\<lparr>status := NOT (status db2) AND 1\<rparr>)
                  else (Inr err, db2))
         else (Inr err, db1))"

text \<open>\<open>_ping\<close> (an Isabelle name cannot start with an underscore).  The deferred
  \<open>pool.Put\<close> runs before the deferred closure, which was registered first.\<close>

definition u_ping :: "DBStatus \<Rightarrow> error + BackendConnection \<Rightarrow> DB \<Rightarrow> (panic + error option) \<times> DB" where
  "u_ping Running g db =
     (case pool_Get g db of
        (Inl e, db1) \<Rightarrow> ping_deferred Running (Some e) db1
      | (Inr c, db1) \<Rightarrow>
          (let (err, db2) = conn_Ping c db1;
               db3 = pool_Put c db2
           in ping_deferred Running err db3))"

text \<open>\<open>ping\<close>: the endless timer loop, run on the pool's answers at the first ticks.
  A panic of \<open>_ping\<close> ends the loop (and the process); a returned error is only logged.\<close>

fun ping :: "DBStatus \<Rightarrow> (error + BackendConnection) list \<Rightarrow> DB \<Rightarrow> panic + DB" where
  "ping Running [] db = Inr db"
| "ping Running (g # gs) db =
     (case u_ping Running g db of
        (Inl p, db') \<Rightarrow> Inl p
      | (Inr err, db') \<Rightarrow> ping Running gs db')"

section \<open>Shutdown\<close>

text \<open>\<open>Close\<close>: \<open>for db.inflightRequests.Load() == 0 { db.pool.Close() }\<close>.  The loop
  may run forever, so the function is partial: \<open>None\<close> means that it does not return.\<close>

partial_function (option) Close :: "DB \<Rightarrow> DB option" where
  "Close db = (if inflightRequests db = 0 then Close (pool_Close db) else Some db)"

text \<open>The state after the first \<open>n\<close> iterations of the loop of \<open>Close\<close>, or after
  fewer if the loop has ended by then.\<close>

fun Close_iterations :: "nat \<Rightarrow> DB \<Rightarrow> DB" where
  "Close_iterations 0 db = db"
| "Close_iterations (Suc n) db =
     (if inflightRequests db = 0 then Close_iterations n (pool_Close db) else db)"

section \<open>Filter chain\<close>

text \<open>The loops of \<open>doConnectionPreFilter\<close> and \<open>doConnectionPostFilter\<close>: the index
  \<open>i\<close> and the filters from position \<open>i\<close> on.\<close>

fun preFilter_loop ::
  "nat \<Rightarrow> DBConnectionPreFilter list \<Rightarrow> BackendConnection \<Rightarrow> DB \<Rightarrow> error option \<times> DB" where
  "preFilter_loop i [] c db = (None, db)"
| "preFilter_loop i (f # fs) c db =
     (let db1 = record_call (PreHandle i (connID c)) db;
          err = f c
      in if err \<noteq> None then (err, db1) else preFilter_loop (Suc i) fs c db1)"

definition doConnectionPreFilter :: "BackendConnection \<Rightarrow> DB \<Rightarrow> error option \<times> DB" where
  "doConnectionPreFilter c db = preFilter_loop 0 (connectionPreFilters db) c db"

fun postFilter_loop ::
  "nat \<Rightarrow> DBConnectionPostFilter list \<Rightarrow> Result option \<Rightarrow> BackendConnection \<Rightarrow> DB
     \<Rightarrow> error option \<times> DB" where
  "postFilter_loop i [] result c db = (None, db)"
| "postFilter_loop i (f # fs) result c db =
     (let db1 = record_call (PostHandle i (connID c)) db;
          err = f result c
      in if err \<noteq> None then (err, db1) else postFilter_loop (Suc i) fs result c db1)"

definition doConnectionPostFilter ::
  "Result option \<Rightarrow> BackendConnection \<Rightarrow> DB \<Rightarrow> error option \<times> DB" where
  "doConnectionPostFilter result c db = postFilter_loop 0 (connectionPostFilters db) result c db"

section \<open>Query and execute operations\<close>

text \<open>
  Each operation takes the pool's answer to its \<open>Get\<close> first.  Contexts and tracing spans
  (\<open>tracing.GetTraceSpan\<close>, \<open>span.End\<close>) carry no state of the node and are left out;
  the span is opened before \<open>inflightRequests.Inc()\<close> and ended after the deferred
  \<open>Dec()\<close>.  Deferred calls run in reverse order of registration on every exit path,
  also when the function panics: first \<open>pool.Put\<close>, then \<open>inflightRequests.Dec()\<close>.
\<close>

definition inflight_Inc :: "DB \<Rightarrow> DB" where
  "inflight_Inc db = db\<lparr>inflightRequests := inflightRequests db + 1\<rparr>"

definition inflight_Dec :: "DB \<Rightarrow> DB" where
  "inflight_Dec db = db\<lparr>inflightRequests := inflightRequests db - 1\<rparr>"

definition UseDB :: "error + BackendConnection \<Rightarrow> string \<Rightarrow> DB \<Rightarrow> error option \<times> DB" where
  "UseDB g schema db =
     (case pool_Get g (inflight_Inc db) of
        (Inl e, db1) \<Rightarrow> (Some (WithStack e), inflight_Dec db1)
      | (Inr c, db1) \<Rightarrow>
          (let (err, db2) = conn_WriteComInitDB c schema db1
           in (err, inflight_Dec (pool_Put c db2))))"

text \<open>The copy loop of \<open>ExecuteFieldList\<close>: \<open>result[i] = field\<close> for the fields \<open>flds\<close>
  from position \<open>i\<close> on.  Go checks the index against the length of \<open>result\<close> (not its
  capacity) and panics when it is out of range.\<close>

fun copy_loop :: "nat \<Rightarrow> Field list \<Rightarrow> Field list \<Rightarrow> panic + Field list" where
  "copy_loop i [] result = Inr result"
| "copy_loop i (field # flds) result =
     (if i < length result then copy_loop (Suc i) flds (result[i := field])
      else Inl (IndexOutOfRange i (length result)))"

text \<open>\<open>make([]proto.Field, 0, len(fields))\<close>: a slice of length 0.\<close>

definition make_fields :: "nat \<Rightarrow> nat \<Rightarrow> Field list" where
  "make_fields len cap = replicate len []"

definition ExecuteFieldList ::
  "error + BackendConnection \<Rightarrow> string \<Rightarrow> string \<Rightarrow> DB
     \<Rightarrow> (panic + Field list option \<times> error option) \<times> DB" where
  "ExecuteFieldList g table wildcard db =
     (case pool_Get g (inflight_Inc db) of
        (Inl e, db1) \<Rightarrow> (Inr (None, Some (WithStack e)), inflight_Dec db1)
      | (Inr c, db1) \<Rightarrow>
          (let (ret, db4) =
             (let (err, db2) = conn_WriteComFieldList c table wildcard db1
              in if err \<noteq> None then (Inr (None, err), db2)
                 else (let ((flds, err'), db3) = conn_ReadColumnDefinitions c db2
                       in if err' \<noteq> None then (Inr (None, err'), db3)
                          else (case copy_loop 0 flds (make_fields 0 (length flds)) of
                                  Inl p \<Rightarrow> (Inl p, db3)
                                | Inr result \<Rightarrow> (Inr (Some result, None), db3))))
           in (ret, inflight_Dec (pool_Put c db4))))"

definition Query ::
  "error + BackendConnection \<Rightarrow> string \<Rightarrow> DB \<Rightarrow> (Result option \<times> uint16 \<times> error option) \<times> DB" where
  "Query g query db =
     (case pool_Get g (inflight_Inc db) of
        (Inl e, db1) \<Rightarrow> ((None, 0, Some (WithStack e)), inflight_Dec db1)
      | (Inr c, db1) \<Rightarrow>
          (let (ret, db5) =
             (case doConnectionPreFilter c db1 of
                (Some e, db2) \<Rightarrow> ((None, 0, Some e), db2)
              | (None, db2) \<Rightarrow>
                  (let ((result, warn, err), db3) = conn_ExecuteWithWarningCount c query True db2
                   in if err \<noteq> None then ((result, warn, err), db3)
                      else (case doConnectionPostFilter result c db3 of
                              (Some e, db4) \<Rightarrow> ((None, 0, Some e), db4)
                            | (None, db4) \<Rightarrow> ((result, warn, err), db4))))
           in (ret, inflight_Dec (pool_Put c db5))))"

definition QueryDirectly ::
  "error + BackendConnection \<Rightarrow> string \<Rightarrow> DB \<Rightarrow> (Result option \<times> uint16 \<times> error option) \<times> DB" where
  "QueryDirectly g query db =
     (case pool_Get g (inflight_Inc db) of
        (Inl e, db1) \<Rightarrow> ((None, 0, Some (WithStack e)), inflight_Dec db1)
      | (Inr c, db1) \<Rightarrow>
          (let (ret, db2) = conn_ExecuteWithWarningCount c query True db1
           in (ret, inflight_Dec (pool_Put c db2))))"

text \<open>\<open>fmt.Sprintf("v%d", n)\<close> for a non-negative \<open>n\<close>: the letter v and the decimal
  digits of \<open>n\<close>.\<close>

fun decimal :: "nat \<Rightarrow> string" where
  "decimal n =
     (if n < 10 then [''0123456789'' ! n]
      else decimal (n div 10) @ [''0123456789'' ! (n mod 10)])"

declare decimal.simps [simp del]

definition parameterID :: "nat \<Rightarrow> string" where
  "parameterID n = ''v'' @ decimal n"

text \<open>The argument loop of \<open>ExecuteStmt\<close>: one argument per entry of the map
  \<open>stmt.BindVars\<close>, the \<open>i\<close>-th looked up under the key \<open>v(i+1)\<close>; a key that is
  absent yields the nil interface.\<close>

definition bind_args :: "Stmt \<Rightarrow> arg list" where
  "bind_args stmt =
     map (\<lambda>i. case BindVars stmt (parameterID (i + 1)) of None \<Rightarrow> None | Some a \<Rightarrow> a)
       [0 ..< card (dom (BindVars stmt))]"

definition ExecuteStmt ::
  "error + BackendConnection \<Rightarrow> Stmt \<Rightarrow> DB \<Rightarrow> (Result option \<times> uint16 \<times> error option) \<times> DB" where
  "ExecuteStmt g stmt db =
     (let query = StmtNode_Text stmt in
      case pool_Get g (inflight_Inc db) of
        (Inl e, db1) \<Rightarrow> ((None, 0, Some (WithStack e)), inflight_Dec db1)
      | (Inr c, db1) \<Rightarrow>
          (let (ret, db5) =
             (case doConnectionPreFilter c db1 of
                (Some e, db2) \<Rightarrow> ((None, 0, Some e), db2)
              | (None, db2) \<Rightarrow>
                  (let args = bind_args stmt;
                       ((result, warn, err), db3) = conn_PrepareQueryArgs c query args db2
                   in if err \<noteq> None then ((result, warn, err), db3)
                      else (case doConnectionPostFilter result c db3 of
                              (Some e, db4) \<Rightarrow> ((None, 0, Some e), db4)
                            | (None, db4) \<Rightarrow> ((result, warn, err), db4))))
           in (ret, inflight_Dec (pool_Put c db5))))"

definition ExecuteSql ::
  "error + BackendConnection \<Rightarrow> string \<Rightarrow> arg list \<Rightarrow> DB
     \<Rightarrow> (Result option \<times> uint16 \<times> error option) \<times> DB" where
  "ExecuteSql g sql args db =
     (case pool_Get g (inflight_Inc db) of
        (Inl e, db1) \<Rightarrow> ((None, 0, Some (WithStack e)), inflight_Dec db1)
      | (Inr c, db1) \<Rightarrow>
          (let (ret, db5) =
             (case doConnectionPreFilter c db1 of
                (Some e, db2) \<Rightarrow> ((None, 0, Some e), db2)
              | (None, db2) \<Rightarrow>
                  (let ((result, warn, err), db3) = conn_PrepareQueryArgs c sql args db2
                   in if err \<noteq> None then ((result, warn, err), db3)
                      else (case doConnectionPostFilter result c db3 of
                              (Some e, db4) \<Rightarrow> ((None, 0, Some e), db4)
                            | (None, db4) \<Rightarrow> ((result, warn, err), db4))))
           in (ret, inflight_Dec (pool_Put c db5))))"

definition ExecuteSqlDirectly ::
  "error + BackendConnection \<Rightarrow> string \<Rightarrow> arg list \<Rightarrow> DB
     \<Rightarrow> (Result option \<times> uint16 \<times> error option) \<times> DB" where
  "ExecuteSqlDirectly g sql args db =
     (case pool_Get g (inflight_Inc db) of
        (Inl e, db1) \<Rightarrow> ((None, 0, Some (WithStack e)), inflight_Dec db1)
      | (Inr c, db1) \<Rightarrow>
          (let (ret, db2) = conn_PrepareQueryArgs c sql args db1
           in (ret, inflight_Dec (pool_Put c db2))))"

section \<open>Transaction start\<close>

text \<open>\<open>Begin\<close> and \<open>XAStart\<close>.  The handle's back reference to the node is left out.\<close>

definition Begin ::
  "error + BackendConnection \<Rightarrow> DB \<Rightarrow> (Tx option \<times> Result option \<times> error option) \<times> DB" where
  "Begin g db =
     (case pool_Get g db of
        (Inl e, db1) \<Rightarrow> ((None, None, Some (WithStack e)), db1)
      | (Inr c, db1) \<Rightarrow>
          (let ((result, err), db2) = conn_Execute c ''START TRANSACTION'' False db1
           in if err \<noteq> None then ((None, None, err), pool_Put c db2)
              else ((Some \<lparr>closed = False, conn = c\<rparr>, result, None), db2)))"

definition XAStart ::
  "error + BackendConnection \<Rightarrow> string \<Rightarrow> DB \<Rightarrow> (Tx option \<times> Result option \<times> error option) \<times> DB" where
  "XAStart g sql db =
     (case pool_Get g db of
        (Inl e, db1) \<Rightarrow> ((None, None, Some (WithStack e)), db1)
      | (Inr c, db1) \<Rightarrow>
          (let ((result, err), db2) = conn_Execute c sql False db1
           in if err \<noteq> None then ((None, None, err), pool_Put c db2)
              else ((Some \<lparr>closed = False, conn = c\<rparr>, result, None), db2)))"

section \<open>Notions used to state the properties\<close>

text \<open>The status value other than \<open>Running\<close> that the toggle \<open>^status & 1\<close> produces.\<close>

definition Unhealthy :: "DBStatus \<Rightarrow> DBStatus" where
  "Unhealthy Running = NOT Running AND 1"

text \<open>The error that \<open>_ping\<close> hands to its deferred closure: the pool's error when the
  acquisition fails, otherwise the answer of the connection's ping.\<close>

definition ping_result :: "error + BackendConnection \<Rightarrow> error option" where
  "ping_result g = (case g of Inl e \<Rightarrow> Some e | Inr c \<Rightarrow> Ping_answer c)"

text \<open>The value the confidence counter reaches in one check, before any reset: one up
  when the outcome disagrees with the current status, one down when it agrees.\<close>

definition count_reached :: "DBStatus \<Rightarrow> bool \<Rightarrow> DB \<Rightarrow> int64" where
  "count_reached Running failed db =
     pingCount db + (if (status db = Running) = failed then 1 else - 1)"

text \<open>One check of the hysteresis, from \<open>db\<close> to \<open>db'\<close>: the status changes exactly when
  the counter reaches a positive multiple of the threshold, a change is the toggle, and
  the counter is reset exactly when it reaches a multiple of the threshold.\<close>

definition hysteresis_step :: "DBStatus \<Rightarrow> bool \<Rightarrow> DB \<Rightarrow> DB \<Rightarrow> bool" where
  "hysteresis_step Running failed db db' =
     (let T = sint (pingTimesForChangeStatus db);
          c = sint (count_reached Running failed db)
      in ((status db' \<noteq> status db) = (0 < c \<and> T dvd c)) \<and>
         (status db' \<noteq> status db \<longrightarrow> status db' = NOT (status db) AND 1) \<and>
         (T dvd c \<longrightarrow> pingCount db' = 0) \<and>
         (\<not> T dvd c \<longrightarrow> pingCount db' = count_reached Running failed db) \<and>
         pingTimesForChangeStatus db' = pingTimesForChangeStatus db)"

text \<open>The confidence counter lies strictly between minus the threshold and the
  threshold, as it does on a new node with a positive threshold.\<close>

definition confidence_bounded :: "DB \<Rightarrow> bool" where
  "confidence_bounded db \<longleftrightarrow> \<bar>sint (pingCount db)\<bar> < sint (pingTimesForChangeStatus db)"

text \<open>What the health monitor leaves behind: status and confidence counter, or nothing
  after a panic.\<close>

definition monitor_view :: "panic + DB \<Rightarrow> (DBStatus \<times> int64) option" where
  "monitor_view r = (case r of Inl p \<Rightarrow> None | Inr db \<Rightarrow> Some (status db, pingCount db))"

text \<open>The requests recorded between two states, and how many of them went to the
  backend connection.\<close>

definition new_calls :: "DB \<Rightarrow> DB \<Rightarrow> (call \<times> int64) list" where
  "new_calls db db' = drop (length (calls db)) (calls db')"

fun is_conn_call :: "call \<Rightarrow> bool" where
  "is_conn_call (ConnPing i) = True"
| "is_conn_call (ConnWriteComInitDB i schema) = True"
| "is_conn_call (ConnWriteComFieldList i table wildcard) = True"
| "is_conn_call (ConnReadColumnDefinitions i) = True"
| "is_conn_call (ConnExecuteWithWarningCount i query w) = True"
| "is_conn_call (ConnPrepareQueryArgs i query args) = True"
| "is_conn_call (ConnExecute i query w) = True"
| "is_conn_call PoolGet = False"
| "is_conn_call (PoolPut i) = False"
| "is_conn_call PoolClose = False"
| "is_conn_call (PreHandle i j) = False"
| "is_conn_call (PostHandle i j) = False"

definition conn_invocations :: "DB \<Rightarrow> DB \<Rightarrow> nat" where
  "conn_invocations db db' = length (filter (\<lambda>x. is_conn_call (fst x)) (new_calls db db'))"

text \<open>The requests that the first \<open>m\<close> pre-filters, or post-filters, receive in
  registration order.\<close>

definition pre_calls :: "nat \<Rightarrow> BackendConnection \<Rightarrow> int64 \<Rightarrow> (call \<times> int64) list" where
  "pre_calls m c n = map (\<lambda>j. (PreHandle j (connID c), n)) [0 ..< m]"

definition post_calls :: "nat \<Rightarrow> BackendConnection \<Rightarrow> int64 \<Rightarrow> (call \<times> int64) list" where
  "post_calls m c n = map (\<lambda>j. (PostHandle j (connID c), n)) [0 ..< m]"

text \<open>The filter at position \<open>k\<close> is the first of \<open>fs\<close> to return an error, the error
  \<open>e\<close>; every filter of \<open>fs\<close> accepts.  \<open>run\<close> applies a filter to the arguments of
  the call at hand.\<close>

definition first_error_at :: "nat \<Rightarrow> 'f list \<Rightarrow> ('f \<Rightarrow> error option) \<Rightarrow> error \<Rightarrow> bool" where
  "first_error_at k fs run e \<longleftrightarrow>
     k < length fs \<and> run (fs ! k) = Some e \<and> list_all (\<lambda>f. run f = None) (take k fs)"

definition all_accept :: "'f list \<Rightarrow> ('f \<Rightarrow> error option) \<Rightarrow> bool" where
  "all_accept fs run \<longleftrightarrow> list_all (\<lambda>f. run f = None) fs"

text \<open>What a filter loop returns and which requests it makes, by recursion over the
  filters: the closed forms of \<open>preFilter_loop\<close> and \<open>postFilter_loop\<close>.\<close>

fun filter_err :: "(BackendConnection \<Rightarrow> error option) list \<Rightarrow> BackendConnection \<Rightarrow> error option" where
  "filter_err [] c = None"
| "filter_err (f # fs) c = (if f c \<noteq> None then f c else filter_err fs c)"

fun filter_calls ::
  "(nat \<Rightarrow> nat \<Rightarrow> call) \<Rightarrow> nat \<Rightarrow> (BackendConnection \<Rightarrow> error option) list \<Rightarrow> BackendConnection
     \<Rightarrow> int64 \<Rightarrow> (call \<times> int64) list" where
  "filter_calls mk i [] c n = []"
| "filter_calls mk i (f # fs) c n =
     (mk i (connID c), n) # (if f c \<noteq> None then [] else filter_calls mk (Suc i) fs c n)"

text \<open>The window of an operation from \<open>db\<close> to \<open>db'\<close>: it made at least one
  request, every request it made saw \<open>inflightRequests\<close> one above the value before
  the call, and the counter is back at that value afterwards.\<close>

definition inflight_window :: "DB \<Rightarrow> DB \<Rightarrow> bool" where
  "inflight_window db db' \<longleftrightarrow>
     inflightRequests db' = inflightRequests db \<and>
     take (length (calls db)) (calls db') = calls db \<and>
     new_calls db db' \<noteq> [] \<and>
     list_all (\<lambda>x. snd x = inflightRequests db + 1) (new_calls db db')"

text \<open>A pool, a connection that answers every request with success, a master node and a
  replica, for evaluating the operations on concrete inputs.\<close>

definition fixture_pool :: ResourcePool where
  "fixture_pool = \<lparr>available = 2, poolClosed = False, closeCalls = 0\<rparr>"

definition fixture_conn :: BackendConnection where
  "fixture_conn =
     \<lparr>connID = 7, Ping_answer = None,
      WriteComInitDB_answer = (\<lambda>schema. None),
      WriteComFieldList_answer = (\<lambda>table wildcard. None),
      ReadColumnDefinitions_answer = ([''id'', ''name''], None),
      ExecuteWithWarningCount_answer = (\<lambda>query wantfields. (Some ''rows'', 0, None)),
      PrepareQueryArgs_answer = (\<lambda>query args. (Some ''rows'', 0, None)),
      Execute_answer = (\<lambda>query wantfields. (Some ''ok'', None))\<rparr>"

definition fixture_db :: DB where
  "fixture_db = NewDB 0 ''db0'' '''' 1000 2 fixture_pool"

definition fixture_replica :: DB where
  "fixture_replica = NewDB 0 ''db1'' ''db0'' 1000 2 fixture_pool"

definition fixture_pre_reject :: DB where
  "fixture_pre_reject =
     SetConnectionPreFilters
       [\<lambda>c. None, \<lambda>c. Some (Err ''denied''), \<lambda>c. Some (Err ''late'')] fixture_db"

definition fixture_post_reject :: DB where
  "fixture_post_reject =
     SetConnectionPostFilters [\<lambda>r c. None, \<lambda>r c. Some (Err ''masked''), \<lambda>r c. None]
       (SetConnectionPreFilters [\<lambda>c. None, \<lambda>c. None] fixture_db)"

definition fixture_stmt :: Stmt where
  "fixture_stmt = \<lparr>StmtNode_Text = ''select ?'', BindVars = [''v1'' \<mapsto> Some ''a'']\<rparr>"

section \<open>Arithmetic of the remainder and of the toggle\<close>

lemma smod_int_eq_0_iff: "(k::int) smod l = 0 \<longleftrightarrow> l dvd k"
  by (auto simp add: smod_int_alt_def sgn_if mod_eq_0_iff_dvd)

lemma smod_int_abs_less: "l \<noteq> 0 \<Longrightarrow> \<bar>(k::int) smod l\<bar> < \<bar>l\<bar>"
  by (simp add: smod_int_alt_def abs_mult sgn_if abs_mod_less)

lemma sint64_abs_le: "\<bar>sint (b::int64)\<bar> \<le> 2 ^ 63"
  using sint_ge [of b] sint_lt [of b] by simp

lemma go_rem64_eq_0_iff: "b \<noteq> 0 \<Longrightarrow> go_rem64 a b = 0 \<longleftrightarrow> sint b dvd sint a"
proof -
  assume "b \<noteq> 0"
  then have nz: "sint b \<noteq> 0" by (simp add: signed_eq_0_iff)
  have "\<bar>sint a smod sint b\<bar> < 2 ^ 64"
    using smod_int_abs_less [OF nz, of "sint a"] sint64_abs_le [of b] by simp
  then have "(2 ^ 64 dvd (sint a smod sint b)) = (sint a smod sint b = 0)"
    by (metis abs_of_nonneg dvd_abs_iff dvd_imp_le_int dvd_0_right not_le abs_ge_zero
        zdvd_not_zless zero_less_abs_iff)
  then show ?thesis
    by (simp add: go_rem64_def word_of_int_eq_0_iff smod_int_eq_0_iff)
qed

lemma sint_inc: "sint (n::int64) < 2 ^ 63 - 1 \<Longrightarrow> sint (n + 1) = sint n + 1"
proof -
  assume a: "sint n < 2 ^ 63 - 1"
  have "- (2 ^ 63) \<le> sint n" using sint_ge [of n] by simp
  with a have "signed_take_bit 63 (sint n + 1) = sint n + 1"
    by (intro signed_take_bit_int_eq_self) simp_all
  then show ?thesis by (simp add: sint_word_ariths)
qed

lemma sint_dec: "- (2 ^ 63) < sint (n::int64) \<Longrightarrow> sint (n - 1) = sint n - 1"
proof -
  assume a: "- (2 ^ 63) < sint n"
  have "sint n < 2 ^ 63" using sint_lt [of n] by simp
  with a have "signed_take_bit 63 (sint n - 1) = sint n - 1"
    by (intro signed_take_bit_int_eq_self) simp_all
  then show ?thesis by (simp add: sint_word_ariths)
qed

lemma toggle_neq: "NOT s AND 1 \<noteq> s" for s :: "8 word"
proof
  assume "NOT s AND 1 = s"
  then have "bit (NOT s AND 1) 0 = bit s 0" by (rule arg_cong)
  then show False by (simp add: bit_simps)
qed

lemma toggle_toggle: "s = 0 \<or> s = 1 \<Longrightarrow> NOT (NOT s AND 1) AND 1 = s" for s :: "8 word"
  by auto

section \<open>The health monitor's hysteresis\<close>

lemma ping_deferred_eq:
  assumes "pingTimesForChangeStatus db \<noteq> 0"
  shows "ping_deferred R err db =
     (Inr err,
      db\<lparr>pingCount :=
            (if sint (pingTimesForChangeStatus db) dvd sint (count_reached R (err \<noteq> None) db)
             then 0 else count_reached R (err \<noteq> None) db),
         status :=
            (if 0 < sint (count_reached R (err \<noteq> None) db) \<and>
                sint (pingTimesForChangeStatus db) dvd sint (count_reached R (err \<noteq> None) db)
             then NOT (status db) AND 1 else status db)\<rparr>)"
  using assms
  by (auto simp add: ping_deferred_def count_reached_def Let_def go_rem64_eq_0_iff)

lemma ping_deferred_step:
  assumes "pingTimesForChangeStatus db \<noteq> 0"
  shows "\<exists>db'. ping_deferred R err db = (Inr err, db') \<and> hysteresis_step R (err \<noteq> None) db db'"
  using assms
  by (simp add: ping_deferred_eq hysteresis_step_def Let_def toggle_neq)

lemma hysteresis_step_cong:
  "status a = status b \<Longrightarrow> pingCount a = pingCount b \<Longrightarrow>
   pingTimesForChangeStatus a = pingTimesForChangeStatus b \<Longrightarrow>
   hysteresis_step R f a d = hysteresis_step R f b d"
  by (simp add: hysteresis_step_def count_reached_def)

lemma hysteresis_step_times:
  "hysteresis_step R f db db' \<Longrightarrow> pingTimesForChangeStatus db' = pingTimesForChangeStatus db"
  by (simp add: hysteresis_step_def Let_def)

text \<open>\<open>_ping\<close> always ends in its deferred closure, on a state that differs from the
  initial one only in the record of the requests made.\<close>

lemma u_ping_deferred:
  "u_ping R g db = ping_deferred R (ping_result g)
     (db\<lparr>calls := calls db @
        (case g of
           Inl e \<Rightarrow> [(PoolGet, inflightRequests db)]
         | Inr c \<Rightarrow> [(PoolGet, inflightRequests db), (ConnPing (connID c), inflightRequests db),
                     (PoolPut (connID c), inflightRequests db)])\<rparr>)"
  by (cases g)
    (simp_all add: u_ping_def pool_Get_def conn_Ping_def pool_Put_def record_call_def
      ping_result_def Let_def)

lemma u_ping_step:
  assumes "pingTimesForChangeStatus db \<noteq> 0"
  shows "\<exists>db'. u_ping R g db = (Inr (ping_result g), db') \<and>
           hysteresis_step R (ping_result g \<noteq> None) db db'"
proof -
  obtain db1 where d: "u_ping R g db = ping_deferred R (ping_result g) db1"
    "status db1 = status db" "pingCount db1 = pingCount db"
    "pingTimesForChangeStatus db1 = pingTimesForChangeStatus db"
    using u_ping_deferred [of R g db] by simp
  from assms d(4) have "pingTimesForChangeStatus db1 \<noteq> 0" by simp
  then obtain db' where "ping_deferred R (ping_result g) db1 = (Inr (ping_result g), db')"
    "hysteresis_step R (ping_result g \<noteq> None) db1 db'"
    using ping_deferred_step by blast
  with d show ?thesis
    by (metis hysteresis_step_cong)
qed

lemma u_ping_eq:
  assumes "pingTimesForChangeStatus db \<noteq> 0"
  shows "\<exists>db'. u_ping R g db = (Inr (ping_result g), db') \<and>
     pingTimesForChangeStatus db' = pingTimesForChangeStatus db \<and>
     pingCount db' =
            (if sint (pingTimesForChangeStatus db) dvd sint (count_reached R (ping_result g \<noteq> None) db)
             then 0 else count_reached R (ping_result g \<noteq> None) db) \<and>
     status db' =
            (if 0 < sint (count_reached R (ping_result g \<noteq> None) db) \<and>
                sint (pingTimesForChangeStatus db) dvd sint (count_reached R (ping_result g \<noteq> None) db)
             then NOT (status db) AND 1 else status db)"
  using assms by (simp add: u_ping_deferred ping_deferred_eq count_reached_def)

lemma ping_total:
  "pingTimesForChangeStatus db \<noteq> 0 \<Longrightarrow>
   \<exists>db'. ping R gs db = Inr db' \<and> pingTimesForChangeStatus db' = pingTimesForChangeStatus db"
proof (induction gs arbitrary: db)
  case Nil
  then show ?case by simp
next
  case (Cons g gs)
  from u_ping_step [OF Cons.prems, of R g] obtain db1 where
    s: "u_ping R g db = (Inr (ping_result g), db1)" "hysteresis_step R (ping_result g \<noteq> None) db db1"
    by blast
  then have t: "pingTimesForChangeStatus db1 = pingTimesForChangeStatus db"
    by (simp add: hysteresis_step_times)
  with Cons.prems have "pingTimesForChangeStatus db1 \<noteq> 0" by simp
  from Cons.IH [OF this] t s(1) show ?case by simp
qed

lemma ping_append:
  "ping R (gs @ hs) db = (case ping R gs db of Inl p \<Rightarrow> Inl p | Inr db' \<Rightarrow> ping R hs db')"
  by (induction gs arbitrary: db) (auto split: prod.splits sum.splits)

lemma ping_steps:
  assumes T: "pingTimesForChangeStatus db \<noteq> 0" and k: "k < length gs"
  shows "\<exists>dbk dbk'. ping R (take k gs) db = Inr dbk \<and>
           u_ping R (gs ! k) dbk = (Inr (ping_result (gs ! k)), dbk') \<and>
           ping R (take (Suc k) gs) db = Inr dbk' \<and>
           hysteresis_step R (ping_result (gs ! k) \<noteq> None) dbk dbk'"
proof -
  obtain dbk where a: "ping R (take k gs) db = Inr dbk"
    "pingTimesForChangeStatus dbk = pingTimesForChangeStatus db"
    using ping_total [OF T] by blast
  with T have "pingTimesForChangeStatus dbk \<noteq> 0" by simp
  from u_ping_step [OF this, of R "gs ! k"] obtain dbk' where
    b: "u_ping R (gs ! k) dbk = (Inr (ping_result (gs ! k)), dbk')"
       "hysteresis_step R (ping_result (gs ! k) \<noteq> None) dbk dbk'"
    by blast
  have "ping R (take (Suc k) gs) db = Inr dbk'"
    using k a(1) b(1) by (simp add: take_Suc_conv_app_nth ping_append)
  with a(1) b show ?thesis by blast
qed



text \<open>On a node whose counter is within the threshold, as on a new node, the counter
  never wraps around and stays within the threshold after every check: the only multiples
  of the threshold it reaches are the threshold itself, its negative and zero.\<close>

lemma count_reached_sint:
  assumes "confidence_bounded db"
  shows "sint (count_reached R failed db) =
           sint (pingCount db) + (if (status db = R) = failed then 1 else - 1)"
proof -
  have "sint (pingTimesForChangeStatus db) < 2 ^ 63"
    using sint_lt [of "pingTimesForChangeStatus db"] by simp
  with assms have "sint (pingCount db) < 2 ^ 63 - 1" "- (2 ^ 63) < sint (pingCount db)"
    by (simp_all add: confidence_bounded_def)
  then show ?thesis
    by (simp add: count_reached_def sint_inc sint_dec)
qed

lemma u_ping_bounded:
  assumes b: "confidence_bounded db"
  shows "\<exists>db'. u_ping R g db = (Inr (ping_result g), db') \<and> confidence_bounded db'"
proof -
  let ?T = "sint (pingTimesForChangeStatus db)"
  let ?c = "sint (count_reached R (ping_result g \<noteq> None) db)"
  from b have T: "0 < ?T" by (simp add: confidence_bounded_def)
  then have nz: "pingTimesForChangeStatus db \<noteq> 0" by auto
  from u_ping_eq [OF nz, of R g] obtain db' where
    d: "u_ping R g db = (Inr (ping_result g), db')"
       "pingTimesForChangeStatus db' = pingTimesForChangeStatus db"
       "pingCount db' = (if ?T dvd ?c then 0 else count_reached R (ping_result g \<noteq> None) db)"
    by blast
  have "?c = sint (pingCount db) + 1 \<or> ?c = sint (pingCount db) - 1"
    using count_reached_sint [OF b, of R "ping_result g \<noteq> None"] by presburger
  moreover from b have "\<bar>sint (pingCount db)\<bar> < ?T" by (simp add: confidence_bounded_def)
  ultimately have le: "\<bar>?c\<bar> \<le> ?T" by linarith
  have "\<bar>sint (pingCount db')\<bar> < ?T"
  proof (cases "?T dvd ?c")
    case True
    with d(3) T show ?thesis by simp
  next
    case False
    then have "\<bar>?c\<bar> \<noteq> ?T" by (metis dvd_abs_iff dvd_refl)
    with le False d(3) show ?thesis by simp
  qed
  with d show ?thesis by (auto simp add: confidence_bounded_def)
qed

lemma ping_bounded:
  "confidence_bounded db \<Longrightarrow> \<exists>db'. ping R gs db = Inr db' \<and> confidence_bounded db'"
proof (induction gs arbitrary: db)
  case Nil
  then show ?case by simp
next
  case (Cons g gs)
  from u_ping_bounded [OF Cons.prems, of R g] obtain db1 where
    "u_ping R g db = (Inr (ping_result g), db1)" "confidence_bounded db1" by blast
  with Cons.IH [of db1] show ?case by simp
qed

lemma NewDB_bounded: "0 < sint T \<Longrightarrow> confidence_bounded (NewDB R nm mName iv T p)"
  by (simp add: confidence_bounded_def NewDB_def)

lemma example_fail_fail:
  assumes "ping_result ga \<noteq> None" "ping_result gb \<noteq> None"
    and "status db = R" "pingCount db = 0" "pingTimesForChangeStatus db = 2"
  shows "monitor_view (ping R [ga] db) = Some (R, 1) \<and>
         monitor_view (ping R [ga, gb] db) = Some (Unhealthy R, 0)"
proof -
  from assms obtain db1 where 1: "u_ping R ga db = (Inr (ping_result ga), db1)"
    "pingTimesForChangeStatus db1 = 2" "pingCount db1 = 1" "status db1 = R"
    using u_ping_eq [of db R ga] by (auto simp add: count_reached_def)
  from assms 1 obtain db2 where 2: "u_ping R gb db1 = (Inr (ping_result gb), db2)"
    "pingTimesForChangeStatus db2 = 2" "pingCount db2 = 0" "status db2 = NOT R AND 1"
    using u_ping_eq [of db1 R gb] by (auto simp add: count_reached_def)
  from 1 2 show ?thesis by (simp add: monitor_view_def Unhealthy_def)
qed

lemma example_ok_ok:
  assumes "ping_result ga = None" "ping_result gb = None" and "R = 0 \<or> R = 1"
    and "status db = Unhealthy R" "pingCount db = 0" "pingTimesForChangeStatus db = 2"
  shows "monitor_view (ping R [ga] db) = Some (Unhealthy R, 1) \<and>
         monitor_view (ping R [ga, gb] db) = Some (R, 0)"
proof -
  have U: "Unhealthy R \<noteq> R" by (simp add: Unhealthy_def toggle_neq)
  from assms U obtain db1 where 1: "u_ping R ga db = (Inr (ping_result ga), db1)"
    "pingTimesForChangeStatus db1 = 2" "pingCount db1 = 1" "status db1 = Unhealthy R"
    using u_ping_eq [of db R ga] by (auto simp add: count_reached_def)
  from assms U 1 obtain db2 where 2: "u_ping R gb db1 = (Inr (ping_result gb), db2)"
    "pingTimesForChangeStatus db2 = 2" "pingCount db2 = 0" "status db2 = NOT (Unhealthy R) AND 1"
    using u_ping_eq [of db1 R gb] by (auto simp add: count_reached_def)
  from assms(3) have "NOT (Unhealthy R) AND 1 = R" by (auto simp add: Unhealthy_def)
  with 1 2 show ?thesis by (simp add: monitor_view_def)
qed

lemma example_fail_ok:
  assumes "ping_result ga \<noteq> None" "ping_result gb = None"
    and "status db = R" "pingCount db = 0" "pingTimesForChangeStatus db = 2"
  shows "monitor_view (ping R [ga] db) = Some (R, 1) \<and>
         monitor_view (ping R [ga, gb] db) = Some (R, 0)"
proof -
  from assms obtain db1 where 1: "u_ping R ga db = (Inr (ping_result ga), db1)"
    "pingTimesForChangeStatus db1 = 2" "pingCount db1 = 1" "status db1 = R"
    using u_ping_eq [of db R ga] by (auto simp add: count_reached_def)
  from assms 1 obtain db2 where 2: "u_ping R gb db1 = (Inr (ping_result gb), db2)"
    "pingTimesForChangeStatus db2 = 2" "pingCount db2 = 0" "status db2 = R"
    using u_ping_eq [of db1 R gb] by (auto simp add: count_reached_def)
  from 1 2 show ?thesis by (simp add: monitor_view_def)
qed

text \<open>
  Claim C1.  For every flip threshold \<open>T \<ge> 1\<close> the periodic check never panics, and at
  every step of every finite sequence of outcomes \<open>hysteresis_step\<close> holds: the status
  changes exactly when the confidence counter reaches a positive multiple of \<open>T\<close>, a
  change is the toggle \<open>^status & 1\<close>, and the counter is reset to zero whenever it
  reaches a multiple of \<open>T\<close>, positive or not.  For \<open>Running\<close> one of the two values 0
  and 1 the toggle alternates between \<open>Running\<close> and the other value.  With \<open>T = 2\<close>:
  from Healthy with counter 0, two failures lead to Unhealthy with counter 0; from
  Unhealthy, two successes lead back to Healthy; from Healthy, a failure followed by a
  success leaves Healthy with counter 0.
\<close>

theorem ping_hysteresis:
  "(0 < sint (pingTimesForChangeStatus db) \<longrightarrow>
      (\<exists>db'. ping R gs db = Inr db') \<and>
      (\<forall>k < length gs. \<exists>dbk dbk'.
          ping R (take k gs) db = Inr dbk \<and>
          u_ping R (gs ! k) dbk = (Inr (ping_result (gs ! k)), dbk') \<and>
          ping R (take (Suc k) gs) db = Inr dbk' \<and>
          hysteresis_step R (ping_result (gs ! k) \<noteq> None) dbk dbk')) \<and>
   (R = 0 \<or> R = 1 \<longrightarrow>
      Unhealthy R \<noteq> R \<and> NOT R AND 1 = Unhealthy R \<and> NOT (Unhealthy R) AND 1 = R) \<and>
   (status s = R \<and> pingCount s = 0 \<and> pingTimesForChangeStatus s = 2 \<and>
    ping_result ga \<noteq> None \<and> ping_result gb \<noteq> None \<longrightarrow>
      monitor_view (ping R [ga] s) = Some (R, 1) \<and>
      monitor_view (ping R [ga, gb] s) = Some (Unhealthy R, 0)) \<and>
   ((R = 0 \<or> R = 1) \<and> status u = Unhealthy R \<and> pingCount u = 0 \<and>
    pingTimesForChangeStatus u = 2 \<and> ping_result gc = None \<and> ping_result gd = None \<longrightarrow>
      monitor_view (ping R [gc, gd] u) = Some (R, 0)) \<and>
   (status s = R \<and> pingCount s = 0 \<and> pingTimesForChangeStatus s = 2 \<and>
    ping_result ga \<noteq> None \<and> ping_result gd = None \<longrightarrow>
      monitor_view (ping R [ga, gd] s) = Some (R, 0))"
proof (intro conjI impI allI)
  assume T: "0 < sint (pingTimesForChangeStatus db)"
  then have nz: "pingTimesForChangeStatus db \<noteq> 0" by auto
  from ping_total [OF nz] show "\<exists>db'. ping R gs db = Inr db'" by blast
  fix k assume "k < length gs"
  from ping_steps [OF nz this]
  show "\<exists>dbk dbk'.
          ping R (take k gs) db = Inr dbk \<and>
          u_ping R (gs ! k) dbk = (Inr (ping_result (gs ! k)), dbk') \<and>
          ping R (take (Suc k) gs) db = Inr dbk' \<and>
          hysteresis_step R (ping_result (gs ! k) \<noteq> None) dbk dbk'" .
next
  show "Unhealthy R \<noteq> R" by (simp add: Unhealthy_def toggle_neq)
next
  show "NOT R AND 1 = Unhealthy R" by (simp add: Unhealthy_def)
next
  assume "R = 0 \<or> R = 1"
  then show "NOT (Unhealthy R) AND 1 = R" by (auto simp add: Unhealthy_def)
next
  assume "status s = R \<and> pingCount s = 0 \<and> pingTimesForChangeStatus s = 2 \<and>
    ping_result ga \<noteq> None \<and> ping_result gb \<noteq> None"
  then show "monitor_view (ping R [ga] s) = Some (R, 1)"
    and "monitor_view (ping R [ga, gb] s) = Some (Unhealthy R, 0)"
    using example_fail_fail [of ga gb s R] by blast+
next
  assume "(R = 0 \<or> R = 1) \<and> status u = Unhealthy R \<and> pingCount u = 0 \<and>
    pingTimesForChangeStatus u = 2 \<and> ping_result gc = None \<and> ping_result gd = None"
  then show "monitor_view (ping R [gc, gd] u) = Some (R, 0)"
    using example_ok_ok [of gc gd R u] by blast
next
  assume "status s = R \<and> pingCount s = 0 \<and> pingTimesForChangeStatus s = 2 \<and>
    ping_result ga \<noteq> None \<and> ping_result gd = None"
  then show "monitor_view (ping R [ga, gd] s) = Some (R, 0)"
    using example_fail_ok [of ga gd s R] by simp
qed


theorem ping_hysteresis_witness:
  "0 < sint (pingTimesForChangeStatus fixture_db) \<and>
   status fixture_db = 0 \<and> pingCount fixture_db = 0 \<and> pingTimesForChangeStatus fixture_db = 2 \<and>
   status (fixture_db\<lparr>status := 1\<rparr>) = Unhealthy 0 \<and>
   ping_result (Inl (Err ''down'')) \<noteq> None \<and> ping_result (Inr fixture_conn) = None \<and>
   (\<exists>db'. ping 0 [Inl (Err ''down''), Inl (Err ''down'')] fixture_db = Inr db') \<and>
   monitor_view (ping 0 [Inl (Err ''down'')] fixture_db) = Some (0, 1) \<and>
   monitor_view (ping 0 [Inl (Err ''down''), Inl (Err ''down'')] fixture_db) = Some (1, 0) \<and>
   monitor_view (ping 0 [Inr fixture_conn, Inr fixture_conn] (fixture_db\<lparr>status := 1\<rparr>)) = Some (0, 0) \<and>
   monitor_view (ping 0 [Inl (Err ''down''), Inr fixture_conn] fixture_db) = Some (0, 0)"
  using ping_hysteresis [where db = fixture_db and R = 0
      and gs = "[Inl (Err ''down''), Inl (Err ''down'')]" and s = fixture_db
      and ga = "Inl (Err ''down'')" and gb = "Inl (Err ''down'')"
      and u = "fixture_db\<lparr>status := 1\<rparr>" and gc = "Inr fixture_conn" and gd = "Inr fixture_conn"]
  by (simp add: fixture_db_def fixture_conn_def NewDB_def ping_result_def Unhealthy_def)

text \<open>
  Claim C8.  On a node constructed with a non-empty master name \<open>isMaster\<close> is false and
  \<open>SetWriteWeight\<close> changes nothing; the same holds in every state of a node whose
  \<open>isMaster\<close> is false.  The function has no error result.  On every node
  \<open>SetWriteWeight\<close> leaves \<open>readWeight\<close> as it was.
\<close>

theorem SetWriteWeight_frame:
  "(mName \<noteq> '''' \<longrightarrow>
      \<not> isMaster (NewDB R nm mName iv T p) \<and>
      SetWriteWeight w (NewDB R nm mName iv T p) = NewDB R nm mName iv T p) \<and>
   (\<not> isMaster db \<longrightarrow> SetWriteWeight w db = db) \<and>
   readWeight (SetWriteWeight w db) = readWeight db"
  by (simp add: SetWriteWeight_def NewDB_def)

theorem SetWriteWeight_frame_witness:
  "''db0'' \<noteq> '''' \<and> \<not> isMaster fixture_replica \<and>
   writeWeight (SetWriteWeight 5 fixture_replica) = 0 \<and>
   SetWriteWeight 5 fixture_replica = fixture_replica \<and>
   readWeight (SetWriteWeight 5 (SetReadWeight 3 fixture_db)) = 3 \<and>
   writeWeight (SetWriteWeight 5 fixture_db) = 5"
  using SetWriteWeight_frame [where mName = "''db0''" and R = 0 and nm = "''db1''" and iv = 1000
      and T = 2 and p = fixture_pool and w = 5 and db = fixture_replica]
    SetWriteWeight_frame [where w = 5 and db = "SetReadWeight 3 fixture_db"]
  by (simp add: fixture_replica_def fixture_db_def NewDB_def SetWriteWeight_def SetReadWeight_def)

lemma ping_deferred_calls: "calls (snd (ping_deferred R err db)) = calls db"
  by (simp add: ping_deferred_def Let_def)

lemma ping_deferred_cong:
  assumes "status a = status b" "pingCount a = pingCount b"
    "pingTimesForChangeStatus a = pingTimesForChangeStatus b" "(e1 = None) = (e2 = None)"
  shows "status (snd (ping_deferred R e1 a)) = status (snd (ping_deferred R e2 b)) \<and>
         pingCount (snd (ping_deferred R e1 a)) = pingCount (snd (ping_deferred R e2 b)) \<and>
         isl (fst (ping_deferred R e1 a)) = isl (fst (ping_deferred R e2 b))"
  using assms by (simp add: ping_deferred_def Let_def)

text \<open>
  Claim C10.  When the pool fails to hand out a connection, \<open>_ping\<close> still runs its
  deferred closure, with the pool's error as the outcome and without any ping having been
  sent: the check counts as a failed one in the hysteresis, and it leaves the status and
  the confidence counter exactly as a check whose ping fails does.
\<close>

theorem ping_counts_acquire_failure:
  "u_ping R (Inl e) db = ping_deferred R (Some e) (record_call PoolGet db) \<and>
   calls (snd (u_ping R (Inl e) db)) = calls db @ [(PoolGet, inflightRequests db)] \<and>
   (pingTimesForChangeStatus db \<noteq> 0 \<longrightarrow>
      fst (u_ping R (Inl e) db) = Inr (Some e) \<and>
      hysteresis_step R True db (snd (u_ping R (Inl e) db))) \<and>
   (Ping_answer c \<noteq> None \<longrightarrow>
      status (snd (u_ping R (Inl e) db)) = status (snd (u_ping R (Inr c) db)) \<and>
      pingCount (snd (u_ping R (Inl e) db)) = pingCount (snd (u_ping R (Inr c) db)) \<and>
      isl (fst (u_ping R (Inl e) db)) = isl (fst (u_ping R (Inr c) db)))"
proof (intro conjI impI)
  show "u_ping R (Inl e) db = ping_deferred R (Some e) (record_call PoolGet db)"
    by (simp add: u_ping_def pool_Get_def Let_def)
  then show "calls (snd (u_ping R (Inl e) db)) = calls db @ [(PoolGet, inflightRequests db)]"
    by (simp add: ping_deferred_calls record_call_def)
next
  assume nz: "pingTimesForChangeStatus db \<noteq> 0"
  from u_ping_step [OF nz, of R "Inl e"]
  show "fst (u_ping R (Inl e) db) = Inr (Some e)"
    and "hysteresis_step R True db (snd (u_ping R (Inl e) db))"
    by (auto simp add: ping_result_def)
next
  assume f: "Ping_answer c \<noteq> None"
  have "status (snd (u_ping R (Inl e) db)) = status (snd (u_ping R (Inr c) db)) \<and>
      pingCount (snd (u_ping R (Inl e) db)) = pingCount (snd (u_ping R (Inr c) db)) \<and>
      isl (fst (u_ping R (Inl e) db)) = isl (fst (u_ping R (Inr c) db))"
    unfolding u_ping_deferred
    by (rule ping_deferred_cong) (use f in \<open>simp_all add: ping_result_def\<close>)
  then show "status (snd (u_ping R (Inl e) db)) = status (snd (u_ping R (Inr c) db))"
    and "pingCount (snd (u_ping R (Inl e) db)) = pingCount (snd (u_ping R (Inr c) db))"
    and "isl (fst (u_ping R (Inl e) db)) = isl (fst (u_ping R (Inr c) db))"
    by simp_all
qed

theorem ping_counts_acquire_failure_witness:
  "pingTimesForChangeStatus fixture_db \<noteq> 0 \<and>
   Ping_answer (fixture_conn\<lparr>Ping_answer := Some (Err ''gone'')\<rparr>) \<noteq> None \<and>
   calls (snd (u_ping 0 (Inl (Err ''closed'')) fixture_db)) = [(PoolGet, 0)] \<and>
   fst (u_ping 0 (Inl (Err ''closed'')) fixture_db) = Inr (Some (Err ''closed'')) \<and>
   pingCount (snd (u_ping 0 (Inl (Err ''closed'')) fixture_db)) = 1 \<and>
   pingCount (snd (u_ping 0 (Inr (fixture_conn\<lparr>Ping_answer := Some (Err ''gone'')\<rparr>)) fixture_db)) = 1"
  using ping_counts_acquire_failure [where R = 0 and e = "Err ''closed''" and db = fixture_db
      and c = "fixture_conn\<lparr>Ping_answer := Some (Err ''gone'')\<rparr>"]
  by (simp add: fixture_db_def fixture_conn_def NewDB_def u_ping_deferred ping_deferred_eq
      count_reached_def ping_result_def record_call_def)


section \<open>Filter chain and query operations\<close>

lemmas fixture_defs = fixture_db_def fixture_conn_def fixture_pool_def fixture_pre_reject_def
  fixture_post_reject_def fixture_stmt_def fixture_replica_def NewDB_def
  SetConnectionPreFilters_def SetConnectionPostFilters_def

lemma preFilter_loop_eq:
  "preFilter_loop i fs c db =
     (filter_err fs c,
      db\<lparr>calls := calls db @ filter_calls PreHandle i fs c (inflightRequests db)\<rparr>)"
  by (induction fs arbitrary: i db) (simp_all add: record_call_def Let_def)

lemma postFilter_loop_eq:
  "postFilter_loop i fs result c db =
     (filter_err (map (\<lambda>f. f result) fs) c,
      db\<lparr>calls := calls db @
         filter_calls PostHandle i (map (\<lambda>f. f result) fs) c (inflightRequests db)\<rparr>)"
  by (induction fs arbitrary: i db) (simp_all add: record_call_def Let_def)

lemma filter_first_error:
  "k < length fs \<Longrightarrow> (fs ! k) c = Some e \<Longrightarrow> \<forall>j<k. (fs ! j) c = None \<Longrightarrow>
   filter_err fs c = Some e \<and>
   filter_calls mk i fs c n = map (\<lambda>j. (mk j (connID c), n)) [i ..< i + Suc k]"
proof (induction fs arbitrary: i k)
  case Nil
  then show ?case by simp
next
  case (Cons f fs)
  show ?case
  proof (cases k)
    case 0
    with Cons.prems show ?thesis by simp
  next
    case (Suc k')
    from Cons.prems Suc have f: "f c = None" by auto
    from Cons.prems Suc have "k' < length fs" "(fs ! k') c = Some e" "\<forall>j<k'. (fs ! j) c = None"
      by auto
    from Cons.IH [OF this, of "Suc i"] f Suc show ?thesis
      by (simp add: upt_conv_Cons del: upt_Suc)
  qed
qed

lemma filter_all_pass:
  "\<forall>j<length fs. (fs ! j) c = None \<Longrightarrow>
   filter_err fs c = None \<and>
   filter_calls mk i fs c n = map (\<lambda>j. (mk j (connID c), n)) [i ..< i + length fs]"
proof (induction fs arbitrary: i)
  case Nil
  then show ?case by simp
next
  case (Cons f fs)
  from Cons.prems have f: "f c = None" by auto
  from Cons.prems have "\<forall>j<length fs. (fs ! j) c = None" by auto
  from Cons.IH [OF this, of "Suc i"] f show ?case
    by (simp add: upt_conv_Cons del: upt_Suc)
qed

lemma filter_calls_snd: "x \<in> set (filter_calls mk i fs c n) \<Longrightarrow> snd x = n"
  by (induction fs arbitrary: i) (auto split: if_splits)

lemma filter_calls_all: "list_all (\<lambda>x. snd x = n) (filter_calls mk i fs c n)"
  by (induction fs arbitrary: i) simp_all

lemmas io_defs = pool_Get_def pool_Put_def inflight_Inc_def inflight_Dec_def record_call_def
  conn_WriteComInitDB_def conn_WriteComFieldList_def conn_ReadColumnDefinitions_def
  conn_ExecuteWithWarningCount_def conn_PrepareQueryArgs_def conn_Execute_def
  doConnectionPreFilter_def doConnectionPostFilter_def preFilter_loop_eq postFilter_loop_eq

lemma Query_window: "inflight_window db (snd (Query g query db))"
  by (cases g)
    (auto simp add: Query_def io_defs inflight_window_def new_calls_def Let_def
      filter_calls_all split: prod.splits option.splits)

lemma UseDB_window: "inflight_window db (snd (UseDB g schema db))"
  by (cases g)
    (auto simp add: UseDB_def io_defs inflight_window_def new_calls_def Let_def
      split: prod.splits option.splits)

lemma ExecuteFieldList_window: "inflight_window db (snd (ExecuteFieldList g table wildcard db))"
  by (cases g)
    (auto simp add: ExecuteFieldList_def io_defs inflight_window_def new_calls_def Let_def
      split: prod.splits option.splits sum.splits)

lemma QueryDirectly_window: "inflight_window db (snd (QueryDirectly g query db))"
  by (cases g)
    (auto simp add: QueryDirectly_def io_defs inflight_window_def new_calls_def Let_def
      split: prod.splits option.splits)

lemma ExecuteStmt_window: "inflight_window db (snd (ExecuteStmt g stmt db))"
  by (cases g)
    (auto simp add: ExecuteStmt_def io_defs inflight_window_def new_calls_def Let_def
      filter_calls_all split: prod.splits option.splits)

lemma ExecuteSql_window: "inflight_window db (snd (ExecuteSql g sql args db))"
  by (cases g)
    (auto simp add: ExecuteSql_def io_defs inflight_window_def new_calls_def Let_def
      filter_calls_all split: prod.splits option.splits)

lemma ExecuteSqlDirectly_window: "inflight_window db (snd (ExecuteSqlDirectly g sql args db))"
  by (cases g)
    (auto simp add: ExecuteSqlDirectly_def io_defs inflight_window_def new_calls_def Let_def
      split: prod.splits option.splits)

lemma conn_invocations_pre [simp]: "filter (\<lambda>x. is_conn_call (fst x)) (pre_calls m c n) = []"
  by (simp add: pre_calls_def filter_empty_conv)

lemma conn_invocations_post [simp]: "filter (\<lambda>x. is_conn_call (fst x)) (post_calls m c n) = []"
  by (simp add: post_calls_def filter_empty_conv)

lemma pre_first_error:
  assumes "k < length fs" "(fs ! k) c = Some e" "\<forall>j<k. (fs ! j) c = None"
  shows "filter_err fs c = Some e" "filter_calls PreHandle 0 fs c n = pre_calls (Suc k) c n"
  using filter_first_error [OF assms, of PreHandle 0 n] by (simp_all add: pre_calls_def)

lemma pre_all_pass:
  assumes "\<forall>j<length fs. (fs ! j) c = None"
  shows "filter_err fs c = None" "filter_calls PreHandle 0 fs c n = pre_calls (length fs) c n"
  using filter_all_pass [OF assms, of PreHandle 0 n] by (simp_all add: pre_calls_def)

lemma post_first_error:
  assumes "k < length fs" "(fs ! k) r c = Some e" "\<forall>j<k. (fs ! j) r c = None"
  shows "filter_err (map (\<lambda>f. f r) fs) c = Some e"
    "filter_calls PostHandle 0 (map (\<lambda>f. f r) fs) c n = post_calls (Suc k) c n"
  using filter_first_error [of k "map (\<lambda>f. f r) fs" c e PostHandle 0 n] assms
  by (simp_all add: post_calls_def)

lemma Query_pre_error:
  assumes "k < length (connectionPreFilters db)" "(connectionPreFilters db ! k) c = Some e"
    "\<forall>j<k. (connectionPreFilters db ! j) c = None"
  shows "Query (Inr c) query db =
     ((None, 0, Some e),
      db\<lparr>calls := calls db @ [(PoolGet, inflightRequests db + 1)] @
         pre_calls (Suc k) c (inflightRequests db + 1) @
         [(PoolPut (connID c), inflightRequests db + 1)]\<rparr>)"
  using pre_first_error [OF assms]
  by (simp add: Query_def io_defs Let_def)

lemma ExecuteStmt_pre_error:
  assumes "k < length (connectionPreFilters db)" "(connectionPreFilters db ! k) c = Some e"
    "\<forall>j<k. (connectionPreFilters db ! j) c = None"
  shows "ExecuteStmt (Inr c) stmt db =
     ((None, 0, Some e),
      db\<lparr>calls := calls db @ [(PoolGet, inflightRequests db + 1)] @
         pre_calls (Suc k) c (inflightRequests db + 1) @
         [(PoolPut (connID c), inflightRequests db + 1)]\<rparr>)"
  using pre_first_error [OF assms]
  by (simp add: ExecuteStmt_def io_defs Let_def)

lemma ExecuteSql_pre_error:
  assumes "k < length (connectionPreFilters db)" "(connectionPreFilters db ! k) c = Some e"
    "\<forall>j<k. (connectionPreFilters db ! j) c = None"
  shows "ExecuteSql (Inr c) sql args db =
     ((None, 0, Some e),
      db\<lparr>calls := calls db @ [(PoolGet, inflightRequests db + 1)] @
         pre_calls (Suc k) c (inflightRequests db + 1) @
         [(PoolPut (connID c), inflightRequests db + 1)]\<rparr>)"
  using pre_first_error [OF assms]
  by (simp add: ExecuteSql_def io_defs Let_def)

lemma Query_post_error:
  assumes "\<forall>j<length (connectionPreFilters db). (connectionPreFilters db ! j) c = None"
    and "ExecuteWithWarningCount_answer c query True = (result, warn, None)"
    and "k < length (connectionPostFilters db)" "(connectionPostFilters db ! k) result c = Some e"
    "\<forall>j<k. (connectionPostFilters db ! j) result c = None"
  shows "Query (Inr c) query db =
     ((None, 0, Some e),
      db\<lparr>calls := calls db @ [(PoolGet, inflightRequests db + 1)] @
         pre_calls (length (connectionPreFilters db)) c (inflightRequests db + 1) @
         [(ConnExecuteWithWarningCount (connID c) query True, inflightRequests db + 1)] @
         post_calls (Suc k) c (inflightRequests db + 1) @
         [(PoolPut (connID c), inflightRequests db + 1)]\<rparr>)"
  using pre_all_pass [OF assms(1)] post_first_error [OF assms(3-5)] assms(2)
  by (simp add: Query_def io_defs Let_def)

lemma ExecuteStmt_post_error:
  assumes "\<forall>j<length (connectionPreFilters db). (connectionPreFilters db ! j) c = None"
    and "PrepareQueryArgs_answer c (StmtNode_Text stmt) (bind_args stmt) = (result, warn, None)"
    and "k < length (connectionPostFilters db)" "(connectionPostFilters db ! k) result c = Some e"
    "\<forall>j<k. (connectionPostFilters db ! j) result c = None"
  shows "ExecuteStmt (Inr c) stmt db =
     ((None, 0, Some e),
      db\<lparr>calls := calls db @ [(PoolGet, inflightRequests db + 1)] @
         pre_calls (length (connectionPreFilters db)) c (inflightRequests db + 1) @
         [(ConnPrepareQueryArgs (connID c) (StmtNode_Text stmt) (bind_args stmt),
           inflightRequests db + 1)] @
         post_calls (Suc k) c (inflightRequests db + 1) @
         [(PoolPut (connID c), inflightRequests db + 1)]\<rparr>)"
  using pre_all_pass [OF assms(1)] post_first_error [OF assms(3-5)] assms(2)
  by (simp add: ExecuteStmt_def io_defs Let_def)

lemma ExecuteSql_post_error:
  assumes "\<forall>j<length (connectionPreFilters db). (connectionPreFilters db ! j) c = None"
    and "PrepareQueryArgs_answer c sql args = (result, warn, None)"
    and "k < length (connectionPostFilters db)" "(connectionPostFilters db ! k) result c = Some e"
    "\<forall>j<k. (connectionPostFilters db ! j) result c = None"
  shows "ExecuteSql (Inr c) sql args db =
     ((None, 0, Some e),
      db\<lparr>calls := calls db @ [(PoolGet, inflightRequests db + 1)] @
         pre_calls (length (connectionPreFilters db)) c (inflightRequests db + 1) @
         [(ConnPrepareQueryArgs (connID c) sql args, inflightRequests db + 1)] @
         post_calls (Suc k) c (inflightRequests db + 1) @
         [(PoolPut (connID c), inflightRequests db + 1)]\<rparr>)"
  using pre_all_pass [OF assms(1)] post_first_error [OF assms(3-5)] assms(2)
  by (simp add: ExecuteSql_def io_defs Let_def)

lemma first_error_atD:
  assumes "first_error_at k fs run e"
  shows "k < length fs" "run (fs ! k) = Some e" "\<forall>j<k. run (fs ! j) = None"
  using assms by (auto simp add: first_error_at_def list_all_length)

lemma all_acceptD: "all_accept fs run \<Longrightarrow> \<forall>j<length fs. run (fs ! j) = None"
  by (simp add: all_accept_def list_all_length)

text \<open>
  Claim C5.  When the pool hands out a connection and the pre-filter at position \<open>k\<close>
  is the first to return an error, \<open>Query\<close>, \<open>ExecuteStmt\<close> and \<open>ExecuteSql\<close>
  return that error with no result and warning count 0; the requests made are the
  acquisition, the pre-filters 0 to \<open>k\<close> in registration order, and the release: no later
  pre-filter runs and no request reaches the backend connection.
\<close>

theorem pre_filter_error_aborts:
  "first_error_at k (connectionPreFilters db) (\<lambda>f. f c) e \<longrightarrow>
     (let n = inflightRequests db + 1;
          db' = db\<lparr>calls := calls db @ [(PoolGet, n)] @ pre_calls (Suc k) c n @
                   [(PoolPut (connID c), n)]\<rparr>
      in Query (Inr c) query db = ((None, 0, Some e), db') \<and>
         ExecuteStmt (Inr c) stmt db = ((None, 0, Some e), db') \<and>
         ExecuteSql (Inr c) sql args db = ((None, 0, Some e), db') \<and>
         conn_invocations db db' = 0)"
proof
  assume a: "first_error_at k (connectionPreFilters db) (\<lambda>f. f c) e"
  note h = first_error_atD [OF a]
  show "let n = inflightRequests db + 1;
          db' = db\<lparr>calls := calls db @ [(PoolGet, n)] @ pre_calls (Suc k) c n @
                   [(PoolPut (connID c), n)]\<rparr>
      in Query (Inr c) query db = ((None, 0, Some e), db') \<and>
         ExecuteStmt (Inr c) stmt db = ((None, 0, Some e), db') \<and>
         ExecuteSql (Inr c) sql args db = ((None, 0, Some e), db') \<and>
         conn_invocations db db' = 0"
    unfolding Let_def
  proof (intro conjI)
    show "conn_invocations db
       (db\<lparr>calls := calls db @ [(PoolGet, inflightRequests db + 1)] @
          pre_calls (Suc k) c (inflightRequests db + 1) @
          [(PoolPut (connID c), inflightRequests db + 1)]\<rparr>) = 0"
      by (simp add: conn_invocations_def new_calls_def)
  qed (simp_all add: Query_pre_error [OF h] ExecuteStmt_pre_error [OF h]
        ExecuteSql_pre_error [OF h])
qed

theorem pre_filter_error_aborts_witness:
  "first_error_at 1 (connectionPreFilters fixture_pre_reject) (\<lambda>f. f fixture_conn) (Err ''denied'') \<and>
   fst (Query (Inr fixture_conn) ''select 1'' fixture_pre_reject) = (None, 0, Some (Err ''denied'')) \<and>
   fst (ExecuteStmt (Inr fixture_conn) fixture_stmt fixture_pre_reject) = (None, 0, Some (Err ''denied'')) \<and>
   fst (ExecuteSql (Inr fixture_conn) ''select ?'' [Some ''a''] fixture_pre_reject)
     = (None, 0, Some (Err ''denied'')) \<and>
   calls (snd (Query (Inr fixture_conn) ''select 1'' fixture_pre_reject))
     = [(PoolGet, 1), (PreHandle 0 7, 1), (PreHandle 1 7, 1), (PoolPut 7, 1)] \<and>
   conn_invocations fixture_pre_reject (snd (Query (Inr fixture_conn) ''select 1'' fixture_pre_reject)) = 0"
  using pre_filter_error_aborts [where k = 1 and db = fixture_pre_reject and c = fixture_conn
      and e = "Err ''denied''" and query = "''select 1''" and stmt = fixture_stmt
      and sql = "''select ?''" and args = "[Some ''a'']"]
  by (simp add: fixture_defs first_error_at_def pre_calls_def Let_def)

lemma conn_invocations_one:
  "is_conn_call b \<Longrightarrow>
   conn_invocations db
     (db\<lparr>calls := calls db @ [(PoolGet, n)] @ pre_calls m c n @ [(b, n)] @
        post_calls k c n @ [(PoolPut (connID c), n)]\<rparr>) = 1"
  by (simp add: conn_invocations_def new_calls_def)

text \<open>
  Claim C6.  When the pool hands out a connection, every pre-filter accepts, the backend
  execution returns without error and the post-filter at position \<open>k\<close> is the first to
  return an error, \<open>Query\<close>, \<open>ExecuteStmt\<close> and \<open>ExecuteSql\<close> return that error with
  no result and warning count 0; the requests made are the acquisition, all pre-filters,
  one backend execution, the post-filters 0 to \<open>k\<close> in registration order, and the
  release: exactly one request reached the backend connection and no later post-filter ran.
\<close>

theorem post_filter_error_discards_result:
  "all_accept (connectionPreFilters db) (\<lambda>f. f c) \<and>
   first_error_at k (connectionPostFilters db) (\<lambda>f. f result c) e \<longrightarrow>
     (let n = inflightRequests db + 1;
          after = (\<lambda>backend. db\<lparr>calls := calls db @ [(PoolGet, n)] @
                     pre_calls (length (connectionPreFilters db)) c n @ [(backend, n)] @
                     post_calls (Suc k) c n @ [(PoolPut (connID c), n)]\<rparr>)
      in (ExecuteWithWarningCount_answer c query True = (result, warn, None) \<longrightarrow>
            Query (Inr c) query db =
              ((None, 0, Some e), after (ConnExecuteWithWarningCount (connID c) query True)) \<and>
            conn_invocations db (snd (Query (Inr c) query db)) = 1) \<and>
         (PrepareQueryArgs_answer c (StmtNode_Text stmt) (bind_args stmt) = (result, warn, None) \<longrightarrow>
            ExecuteStmt (Inr c) stmt db =
              ((None, 0, Some e),
               after (ConnPrepareQueryArgs (connID c) (StmtNode_Text stmt) (bind_args stmt))) \<and>
            conn_invocations db (snd (ExecuteStmt (Inr c) stmt db)) = 1) \<and>
         (PrepareQueryArgs_answer c sql args = (result, warn, None) \<longrightarrow>
            ExecuteSql (Inr c) sql args db =
              ((None, 0, Some e), after (ConnPrepareQueryArgs (connID c) sql args)) \<and>
            conn_invocations db (snd (ExecuteSql (Inr c) sql args db)) = 1))"
proof
  assume a: "all_accept (connectionPreFilters db) (\<lambda>f. f c) \<and>
   first_error_at k (connectionPostFilters db) (\<lambda>f. f result c) e"
  note p = all_acceptD [OF a [THEN conjunct1]]
  note q = first_error_atD [OF a [THEN conjunct2]]
  show "let n = inflightRequests db + 1;
          after = (\<lambda>backend. db\<lparr>calls := calls db @ [(PoolGet, n)] @
                     pre_calls (length (connectionPreFilters db)) c n @ [(backend, n)] @
                     post_calls (Suc k) c n @ [(PoolPut (connID c), n)]\<rparr>)
      in (ExecuteWithWarningCount_answer c query True = (result, warn, None) \<longrightarrow>
            Query (Inr c) query db =
              ((None, 0, Some e), after (ConnExecuteWithWarningCount (connID c) query True)) \<and>
            conn_invocations db (snd (Query (Inr c) query db)) = 1) \<and>
         (PrepareQueryArgs_answer c (StmtNode_Text stmt) (bind_args stmt) = (result, warn, None) \<longrightarrow>
            ExecuteStmt (Inr c) stmt db =
              ((None, 0, Some e),
               after (ConnPrepareQueryArgs (connID c) (StmtNode_Text stmt) (bind_args stmt))) \<and>
            conn_invocations db (snd (ExecuteStmt (Inr c) stmt db)) = 1) \<and>
         (PrepareQueryArgs_answer c sql args = (result, warn, None) \<longrightarrow>
            ExecuteSql (Inr c) sql args db =
              ((None, 0, Some e), after (ConnPrepareQueryArgs (connID c) sql args)) \<and>
            conn_invocations db (snd (ExecuteSql (Inr c) sql args db)) = 1)"
    unfolding Let_def
  proof (intro conjI impI)
    assume b: "ExecuteWithWarningCount_answer c query True = (result, warn, None)"
    show "Query (Inr c) query db =
      ((None, 0, Some e),
       db\<lparr>calls := calls db @ [(PoolGet, inflightRequests db + 1)] @
          pre_calls (length (connectionPreFilters db)) c (inflightRequests db + 1) @
          [(ConnExecuteWithWarningCount (connID c) query True, inflightRequests db + 1)] @
          post_calls (Suc k) c (inflightRequests db + 1) @
          [(PoolPut (connID c), inflightRequests db + 1)]\<rparr>)"
      by (rule Query_post_error [OF p b q])
    then show "conn_invocations db (snd (Query (Inr c) query db)) = 1"
      by (simp only: snd_conv conn_invocations_one is_conn_call.simps)
  next
    assume b: "PrepareQueryArgs_answer c (StmtNode_Text stmt) (bind_args stmt) = (result, warn, None)"
    show "ExecuteStmt (Inr c) stmt db =
      ((None, 0, Some e),
       db\<lparr>calls := calls db @ [(PoolGet, inflightRequests db + 1)] @
          pre_calls (length (connectionPreFilters db)) c (inflightRequests db + 1) @
          [(ConnPrepareQueryArgs (connID c) (StmtNode_Text stmt) (bind_args stmt),
            inflightRequests db + 1)] @
          post_calls (Suc k) c (inflightRequests db + 1) @
          [(PoolPut (connID c), inflightRequests db + 1)]\<rparr>)"
      by (rule ExecuteStmt_post_error [OF p b q])
    then show "conn_invocations db (snd (ExecuteStmt (Inr c) stmt db)) = 1"
      by (simp only: snd_conv conn_invocations_one is_conn_call.simps)
  next
    assume b: "PrepareQueryArgs_answer c sql args = (result, warn, None)"
    show "ExecuteSql (Inr c) sql args db =
      ((None, 0, Some e),
       db\<lparr>calls := calls db @ [(PoolGet, inflightRequests db + 1)] @
          pre_calls (length (connectionPreFilters db)) c (inflightRequests db + 1) @
          [(ConnPrepareQueryArgs (connID c) sql args, inflightRequests db + 1)] @
          post_calls (Suc k) c (inflightRequests db + 1) @
          [(PoolPut (connID c), inflightRequests db + 1)]\<rparr>)"
      by (rule ExecuteSql_post_error [OF p b q])
    then show "conn_invocations db (snd (ExecuteSql (Inr c) sql args db)) = 1"
      by (simp only: snd_conv conn_invocations_one is_conn_call.simps)
  qed
qed

theorem post_filter_error_discards_result_witness:
  "all_accept (connectionPreFilters fixture_post_reject) (\<lambda>f. f fixture_conn) \<and>
   first_error_at 1 (connectionPostFilters fixture_post_reject) (\<lambda>f. f (Some ''rows'') fixture_conn)
     (Err ''masked'') \<and>
   ExecuteWithWarningCount_answer fixture_conn ''select 1'' True = (Some ''rows'', 0, None) \<and>
   PrepareQueryArgs_answer fixture_conn (StmtNode_Text fixture_stmt) (bind_args fixture_stmt)
     = (Some ''rows'', 0, None) \<and>
   PrepareQueryArgs_answer fixture_conn ''select ?'' [Some ''a''] = (Some ''rows'', 0, None) \<and>
   fst (Query (Inr fixture_conn) ''select 1'' fixture_post_reject) = (None, 0, Some (Err ''masked'')) \<and>
   calls (snd (Query (Inr fixture_conn) ''select 1'' fixture_post_reject))
     = [(PoolGet, 1), (PreHandle 0 7, 1), (PreHandle 1 7, 1),
        (ConnExecuteWithWarningCount 7 ''select 1'' True, 1),
        (PostHandle 0 7, 1), (PostHandle 1 7, 1), (PoolPut 7, 1)] \<and>
   conn_invocations fixture_post_reject (snd (Query (Inr fixture_conn) ''select 1'' fixture_post_reject)) = 1 \<and>
   fst (ExecuteStmt (Inr fixture_conn) fixture_stmt fixture_post_reject) = (None, 0, Some (Err ''masked'')) \<and>
   fst (ExecuteSql (Inr fixture_conn) ''select ?'' [Some ''a''] fixture_post_reject)
     = (None, 0, Some (Err ''masked''))"
  using post_filter_error_discards_result [where k = 1 and db = fixture_post_reject
      and c = fixture_conn and result = "Some ''rows''" and warn = 0
      and e = "Err ''masked''" and query = "''select 1''" and stmt = fixture_stmt
      and sql = "''select ?''" and args = "[Some ''a'']"]
  by (simp add: fixture_defs first_error_at_def all_accept_def pre_calls_def post_calls_def Let_def
      conn_invocations_def new_calls_def)


text \<open>
  Claim C7.  Each of the seven query and execute operations, whatever the pool, the filters
  and the connection answer, makes its requests (the acquisition first) while
  \<open>inflightRequests\<close> is one above its value before the call, and leaves the counter at
  that value when it returns, also when it returns an error or panics.  One above is
  strictly greater unless the counter was at the largest 64-bit value.
\<close>

theorem inflight_counter_window:
  "inflight_window db (snd (UseDB g schema db)) \<and>
   inflight_window db (snd (ExecuteFieldList g table wildcard db)) \<and>
   inflight_window db (snd (Query g query db)) \<and>
   inflight_window db (snd (QueryDirectly g query db)) \<and>
   inflight_window db (snd (ExecuteStmt g stmt db)) \<and>
   inflight_window db (snd (ExecuteSql g sql args db)) \<and>
   inflight_window db (snd (ExecuteSqlDirectly g sql args db)) \<and>
   (sint (inflightRequests db) < 2 ^ 63 - 1 \<longrightarrow>
      sint (inflightRequests db) < sint (inflightRequests db + 1))"
  by (simp add: UseDB_window ExecuteFieldList_window Query_window QueryDirectly_window
      ExecuteStmt_window ExecuteSql_window ExecuteSqlDirectly_window sint_inc)

theorem inflight_counter_window_witness:
  "sint (inflightRequests fixture_post_reject) < 2 ^ 63 - 1 \<and>
   inflightRequests (snd (Query (Inr fixture_conn) ''select 1'' fixture_post_reject)) = 0 \<and>
   map snd (new_calls fixture_post_reject (snd (Query (Inr fixture_conn) ''select 1'' fixture_post_reject)))
     = [1, 1, 1, 1, 1, 1, 1] \<and>
   inflight_window fixture_db (snd (ExecuteSqlDirectly (Inl (Err ''closed'')) ''select 1'' [] fixture_db)) \<and>
   sint (inflightRequests fixture_db) < sint (inflightRequests fixture_db + 1)"
  using inflight_counter_window [where db = fixture_post_reject and g = "Inr fixture_conn"
      and query = "''select 1''"]
    inflight_counter_window [where db = fixture_db and g = "Inl (Err ''closed'')"
      and sql = "''select 1''" and args = "[]"]
  by (simp add: fixture_defs inflight_window_def new_calls_def Query_def io_defs Let_def)

section \<open>Shutdown\<close>

lemma pool_Close_inflight [simp]: "inflightRequests (pool_Close db) = inflightRequests db"
  by (simp add: pool_Close_def record_call_def Let_def)

lemma pool_Close_closeCalls [simp]:
  "closeCalls (pool (pool_Close db)) = Suc (closeCalls (pool db))"
  by (simp add: pool_Close_def record_call_def Let_def)

lemma Close_returns_only_in_flight:
  assumes "Close db = Some db'"
  shows "inflightRequests db \<noteq> 0"
proof (rule Close.raw_induct [where P = "\<lambda>x y. inflightRequests x \<noteq> 0", OF _ assms])
  fix f x y
  assume IH: "\<And>x y. f x = Some y \<Longrightarrow> inflightRequests x \<noteq> 0"
    and step: "(if inflightRequests x = 0 then f (pool_Close x) else Some x) = Some y"
  show "inflightRequests x \<noteq> 0"
  proof
    assume z: "inflightRequests x = 0"
    with step have "f (pool_Close x) = Some y" by simp
    from IH [OF this] z show False by simp
  qed
qed

lemma Close_diverges: "inflightRequests db = 0 \<Longrightarrow> Close db = None"
  using Close_returns_only_in_flight [of db] by (cases "Close db") auto

lemma Close_in_flight: "inflightRequests db \<noteq> 0 \<Longrightarrow> Close db = Some db"
  by (subst Close.simps) simp

lemma Close_iterations_count:
  "inflightRequests db = 0 \<Longrightarrow>
   closeCalls (pool (Close_iterations n db)) = closeCalls (pool db) + n \<and>
   inflightRequests (Close_iterations n db) = 0"
  by (induction n arbitrary: db) simp_all

lemma Close_iterations_unfold: "Close db = Close (Close_iterations n db)"
proof (induction n arbitrary: db)
  case 0
  show ?case by simp
next
  case (Suc n)
  show ?case
  proof (cases "inflightRequests db = 0")
    case True
    then have "Close db = Close (pool_Close db)" by (subst Close.simps) simp
    also have "\<dots> = Close (Close_iterations n (pool_Close db))" by (rule Suc.IH)
    finally show ?thesis using True by simp
  next
    case False
    then show ?thesis by simp
  qed
qed

text \<open>
  Claim C2.  What \<open>Close\<close> does instead: on a node with no request in flight, such as a
  new one, it never returns, and \<open>n\<close> iterations of its loop have closed the pool \<open>n\<close>
  times; on a node with a request in flight it returns at once, without waiting and
  without closing the pool.
\<close>

theorem Close_neither_waits_nor_closes_once:
  "Close (NewDB R nm mName iv T p) = None \<and>
   closeCalls (pool (Close_iterations n (NewDB R nm mName iv T p))) = closeCalls p + n \<and>
   Close (NewDB R nm mName iv T p) = Close (Close_iterations n (NewDB R nm mName iv T p)) \<and>
   Close (inflight_Inc (NewDB R nm mName iv T p)) = Some (inflight_Inc (NewDB R nm mName iv T p)) \<and>
   closeCalls (pool (inflight_Inc (NewDB R nm mName iv T p))) = closeCalls p"
proof -
  have z: "inflightRequests (NewDB R nm mName iv T p) = 0" by (simp add: NewDB_def)
  have p: "pool (NewDB R nm mName iv T p) = p" by (simp add: NewDB_def)
  have nz: "inflightRequests (inflight_Inc (NewDB R nm mName iv T p)) \<noteq> 0"
    by (simp add: NewDB_def inflight_Inc_def)
  show ?thesis
    using Close_diverges [OF z] Close_iterations_count [OF z, of n] Close_in_flight [OF nz]
      Close_iterations_unfold [of "NewDB R nm mName iv T p" n] p
    by (simp add: inflight_Inc_def)
qed

theorem Close_neither_waits_nor_closes_once_witness:
  "Close fixture_db = None \<and>
   closeCalls (pool (Close_iterations 3 fixture_db)) = 3 \<and>
   Close (inflight_Inc fixture_db) = Some (inflight_Inc fixture_db) \<and>
   closeCalls (pool (inflight_Inc fixture_db)) = 0"
  using Close_neither_waits_nor_closes_once [where R = 0 and nm = "''db0''" and mName = "''''"
      and iv = 1000 and T = 2 and p = fixture_pool and n = 3]
  by (simp add: fixture_db_def fixture_pool_def)

section \<open>Field list\<close>

text \<open>
  Claim C3.  What \<open>ExecuteFieldList\<close> does instead: when acquisition, request and read
  succeed and the connection has read at least one column definition, the copy into the
  zero-length slice panics at index 0; only an empty list of columns is returned.
\<close>

theorem ExecuteFieldList_columns:
  "(WriteComFieldList_answer c table wildcard = None \<and>
    ReadColumnDefinitions_answer c = (f # fs, None) \<longrightarrow>
      fst (ExecuteFieldList (Inr c) table wildcard db) = Inl (IndexOutOfRange 0 0)) \<and>
   (WriteComFieldList_answer c table wildcard = None \<and>
    ReadColumnDefinitions_answer c = ([], None) \<longrightarrow>
      fst (ExecuteFieldList (Inr c) table wildcard db) = Inr (Some [], None))"
  by (simp add: ExecuteFieldList_def io_defs make_fields_def Let_def)

theorem ExecuteFieldList_columns_witness:
  "WriteComFieldList_answer fixture_conn ''t'' ''%'' = None \<and>
   ReadColumnDefinitions_answer fixture_conn = ([''id'', ''name''], None) \<and>
   fst (ExecuteFieldList (Inr fixture_conn) ''t'' ''%'' fixture_db) = Inl (IndexOutOfRange 0 0)"
  using ExecuteFieldList_columns [where c = fixture_conn and table = "''t''" and wildcard = "''%''"
      and f = "''id''" and fs = "[''name'']" and db = fixture_db]
  by (simp add: fixture_conn_def)

section \<open>Transaction start\<close>

lemma XAStart_fail:
  assumes "Execute_answer c sql False = (result, Some e)"
  shows "XAStart (Inr c) sql db =
     ((None, None, Some e),
      db\<lparr>calls := calls db @ [(PoolGet, inflightRequests db),
         (ConnExecute (connID c) sql False, inflightRequests db),
         (PoolPut (connID c), inflightRequests db)]\<rparr>)"
  using assms by (simp add: XAStart_def io_defs Let_def)

lemma XAStart_ok:
  assumes "Execute_answer c sql False = (result, None)"
  shows "XAStart (Inr c) sql db =
     ((Some \<lparr>closed = False, conn = c\<rparr>, result, None),
      db\<lparr>pool := (pool db)\<lparr>available := available (pool db) - 1\<rparr>,
         calls := calls db @ [(PoolGet, inflightRequests db),
           (ConnExecute (connID c) sql False, inflightRequests db)]\<rparr>)"
  using assms by (simp add: XAStart_def io_defs Let_def)

lemma XAStart_no_conn:
  "XAStart (Inl e) sql db =
     ((None, None, Some (WithStack e)), db\<lparr>calls := calls db @ [(PoolGet, inflightRequests db)]\<rparr>)"
  by (simp add: XAStart_def io_defs Let_def)

lemma Begin_XAStart: "Begin g db = XAStart g ''START TRANSACTION'' db"
  by (simp add: Begin_def XAStart_def)

lemma query_operations_keep_pool:
  "pool (snd (UseDB g schema db)) = pool db \<and>
   pool (snd (ExecuteFieldList g table wildcard db)) = pool db \<and>
   pool (snd (Query g query db)) = pool db \<and>
   pool (snd (QueryDirectly g query db)) = pool db \<and>
   pool (snd (ExecuteStmt g stmt db)) = pool db \<and>
   pool (snd (ExecuteSql g sql args db)) = pool db \<and>
   pool (snd (ExecuteSqlDirectly g sql args db)) = pool db"
  by (cases g)
    (auto simp add: UseDB_def ExecuteFieldList_def Query_def QueryDirectly_def ExecuteStmt_def
      ExecuteSql_def ExecuteSqlDirectly_def io_defs Let_def
      split: prod.splits option.splits sum.splits)

text \<open>
  Claim C4.  \<open>Begin\<close> is \<open>XAStart\<close> on the statement START TRANSACTION.  When the
  start statement fails on the acquired connection, the requests made are acquisition,
  execution and release of that connection, the pool's available count is what it was
  before the call, and the error is returned without a handle.  When the start statement
  succeeds, the connection is not released: the open handle returned holds it, and the
  available count is one lower than before the call.  No query or execute operation of
  the node changes the pool, so the count stays there while the handle is open.
\<close>

theorem transaction_start_connection_ownership:
  "(Execute_answer c sql False = (result, Some e) \<longrightarrow>
      fst (XAStart (Inr c) sql db) = (None, None, Some e) \<and>
      available (pool (snd (XAStart (Inr c) sql db))) = available (pool db) \<and>
      new_calls db (snd (XAStart (Inr c) sql db)) =
        [(PoolGet, inflightRequests db), (ConnExecute (connID c) sql False, inflightRequests db),
         (PoolPut (connID c), inflightRequests db)]) \<and>
   (Execute_answer c sql False = (result, None) \<longrightarrow>
      fst (XAStart (Inr c) sql db) = (Some \<lparr>closed = False, conn = c\<rparr>, result, None) \<and>
      available (pool (snd (XAStart (Inr c) sql db))) = available (pool db) - 1 \<and>
      new_calls db (snd (XAStart (Inr c) sql db)) =
        [(PoolGet, inflightRequests db), (ConnExecute (connID c) sql False, inflightRequests db)]) \<and>
   Begin g db = XAStart g ''START TRANSACTION'' db \<and>
   pool (snd (UseDB h schema d)) = pool d \<and>
   pool (snd (ExecuteFieldList h table wildcard d)) = pool d \<and>
   pool (snd (Query h query d)) = pool d \<and>
   pool (snd (QueryDirectly h query d)) = pool d \<and>
   pool (snd (ExecuteStmt h stmt d)) = pool d \<and>
   pool (snd (ExecuteSql h q args d)) = pool d \<and>
   pool (snd (ExecuteSqlDirectly h q args d)) = pool d"
  using query_operations_keep_pool [of h schema d table wildcard query stmt q args]
  by (simp add: XAStart_fail XAStart_ok Begin_XAStart new_calls_def)

theorem transaction_start_connection_ownership_witness:
  "Execute_answer (fixture_conn\<lparr>Execute_answer := \<lambda>q w. (None, Some (Err ''read only''))\<rparr>)
     ''START TRANSACTION'' False = (None, Some (Err ''read only'')) \<and>
   fst (Begin (Inr (fixture_conn\<lparr>Execute_answer := \<lambda>q w. (None, Some (Err ''read only''))\<rparr>))
     fixture_db) = (None, None, Some (Err ''read only'')) \<and>
   available (pool (snd (Begin
     (Inr (fixture_conn\<lparr>Execute_answer := \<lambda>q w. (None, Some (Err ''read only''))\<rparr>))
     fixture_db))) = 2 \<and>
   Execute_answer fixture_conn ''START TRANSACTION'' False = (Some ''ok'', None) \<and>
   fst (Begin (Inr fixture_conn) fixture_db)
     = (Some \<lparr>closed = False, conn = fixture_conn\<rparr>, Some ''ok'', None) \<and>
   available (pool (snd (Begin (Inr fixture_conn) fixture_db))) = 1 \<and>
   available (pool fixture_db) = 2"
  using transaction_start_connection_ownership [where sql = "''START TRANSACTION''"
      and c = "fixture_conn\<lparr>Execute_answer := \<lambda>q w. (None, Some (Err ''read only''))\<rparr>"
      and result = None and e = "Err ''read only''" and db = fixture_db
      and g = "Inr (fixture_conn\<lparr>Execute_answer := \<lambda>q w. (None, Some (Err ''read only''))\<rparr>)"]
    transaction_start_connection_ownership [where sql = "''START TRANSACTION''"
      and c = fixture_conn and result = "Some ''ok''" and db = fixture_db
      and g = "Inr fixture_conn"]
  by (simp add: fixture_defs)

text \<open>
  Claim C9.  \<open>Begin\<close> and \<open>XAStart\<close> leave \<open>inflightRequests\<close> as it was on every
  path, and every request they make sees the value it had before the call.  After a
  successful start on a node with no request in flight the counter is still zero although
  an open handle holds a connection taken from the pool, and the loop of \<open>Close\<close> goes
  on to close the pool at once.
\<close>

theorem transaction_start_keeps_inflight:
  "inflightRequests (snd (Begin g db)) = inflightRequests db \<and>
   inflightRequests (snd (XAStart g sql db)) = inflightRequests db \<and>
   list_all (\<lambda>x. snd x = inflightRequests db) (new_calls db (snd (Begin g db))) \<and>
   list_all (\<lambda>x. snd x = inflightRequests db) (new_calls db (snd (XAStart g sql db))) \<and>
   (Execute_answer c sql False = (result, None) \<and> inflightRequests db = 0 \<longrightarrow>
      fst (fst (XAStart (Inr c) sql db)) = Some \<lparr>closed = False, conn = c\<rparr> \<and>
      available (pool (snd (XAStart (Inr c) sql db))) = available (pool db) - 1 \<and>
      inflightRequests (snd (XAStart (Inr c) sql db)) = 0 \<and>
      Close (snd (XAStart (Inr c) sql db)) = Close (pool_Close (snd (XAStart (Inr c) sql db))))"
proof -
  have a: "inflightRequests (snd (XAStart g q db)) = inflightRequests db \<and>
      list_all (\<lambda>x. snd x = inflightRequests db) (new_calls db (snd (XAStart g q db)))" for q
    by (cases g)
      (auto simp add: XAStart_def io_defs Let_def new_calls_def split: prod.splits option.splits)
  have b: "Execute_answer c sql False = (result, None) \<and> inflightRequests db = 0 \<longrightarrow>
      fst (fst (XAStart (Inr c) sql db)) = Some \<lparr>closed = False, conn = c\<rparr> \<and>
      available (pool (snd (XAStart (Inr c) sql db))) = available (pool db) - 1 \<and>
      inflightRequests (snd (XAStart (Inr c) sql db)) = 0 \<and>
      Close (snd (XAStart (Inr c) sql db)) = Close (pool_Close (snd (XAStart (Inr c) sql db)))"
  proof (intro impI, elim conjE)
    assume ok: "Execute_answer c sql False = (result, None)" and z: "inflightRequests db = 0"
    have i: "inflightRequests (snd (XAStart (Inr c) sql db)) = 0"
      using a [of sql] z by (simp add: XAStart_ok [OF ok])
    have "Close (snd (XAStart (Inr c) sql db)) = Close (pool_Close (snd (XAStart (Inr c) sql db)))"
      by (subst Close.simps) (simp add: i)
    with i show "fst (fst (XAStart (Inr c) sql db)) = Some \<lparr>closed = False, conn = c\<rparr> \<and>
      available (pool (snd (XAStart (Inr c) sql db))) = available (pool db) - 1 \<and>
      inflightRequests (snd (XAStart (Inr c) sql db)) = 0 \<and>
      Close (snd (XAStart (Inr c) sql db)) = Close (pool_Close (snd (XAStart (Inr c) sql db)))"
      by (simp add: XAStart_ok [OF ok])
  qed
  from a [of sql] a [of "''START TRANSACTION''"] b show ?thesis
    by (simp add: Begin_XAStart)
qed

theorem transaction_start_keeps_inflight_witness:
  "Execute_answer fixture_conn ''XA START x1'' False = (Some ''ok'', None) \<and>
   inflightRequests fixture_db = 0 \<and>
   inflightRequests (snd (XAStart (Inr fixture_conn) ''XA START x1'' fixture_db)) = 0 \<and>
   available (pool (snd (XAStart (Inr fixture_conn) ''XA START x1'' fixture_db))) = 1 \<and>
   inflightRequests (snd (Begin (Inl (Err ''closed'')) fixture_db)) = 0"
  using transaction_start_keeps_inflight [where g = "Inr fixture_conn" and db = fixture_db
      and sql = "''XA START x1''" and c = fixture_conn and result = "Some ''ok''"]
    transaction_start_keeps_inflight [where g = "Inl (Err ''closed'')" and db = fixture_db]
  by (simp add: fixture_defs)


end
